theory Spec2Isabelle
  imports Main "HOL-Library.Word" "HOL-Library.Sublist"
begin

unbundle bit_operations_syntax

section \<open>The frame header codec of fhdr.go\<close>

text \<open>
  A shallow embedding of \<^verbatim>\<open>fhdr.go\<close> (package lorawan): \<^verbatim>\<open>DevAddr\<close>, \<^verbatim>\<open>FCtrl\<close> and
  \<^verbatim>\<open>FHDR\<close> with their \<^verbatim>\<open>MarshalBinary\<close> and \<^verbatim>\<open>UnmarshalBinary\<close> methods.
  Go's \<^verbatim>\<open>byte\<close>, \<^verbatim>\<open>uint16\<close> and \<^verbatim>\<open>uint32\<close> are words of that width, a
  \<^verbatim>\<open>[]byte\<close> is a list of bytes, \<^verbatim>\<open>int\<close> lengths and indices are naturals (they
  are never negative and stay far below the width of \<^verbatim>\<open>int\<close>).
  A method with a value receiver is a function of the receiver; a method with a
  pointer receiver returns the receiver as the call leaves it, next to the error.
  A Go \<^verbatim>\<open>error\<close> result is an \<open>error option\<close>, \<open>None\<close> for \<^verbatim>\<open>nil\<close>.
\<close>

subsection \<open>Data\<close>

type_synonym byte = "8 word"

type_synonym DevAddr = "32 word"

text \<open>
  The errors of the file are made with \<^verbatim>\<open>errors.New\<close>; each message is a constructor.
  \<open>ErrMACCommand\<close> stands for any error a \<^verbatim>\<open>MACCommand\<close> method returns.
\<close>

datatype error =
    Err4BytesExpected         \<comment> \<open>lorawan: 4 bytes of data are expected\<close>
  | Err1ByteExpected          \<comment> \<open>lorawan: 1 byte of data is expected\<close>
  | ErrMaxFOptsLen            \<comment> \<open>lorawan: max value of FOptsLen is 15\<close>
  | ErrMaxFOptsBytes          \<comment> \<open>lorawan: max number of FOpts bytes is 15\<close>
  | ErrAtLeast7Bytes          \<comment> \<open>lorawan: at least 7 bytes are expected\<close>
  | ErrNotEnoughBytes         \<comment> \<open>lorawan: not enough remaining bytes\<close>
  | ErrMACCommand string

record FCtrl =
  ADR :: bool
  ADRACKReq :: bool
  ACK :: bool
  FPending :: bool
  fOptsLen :: byte

text \<open>
  \<^verbatim>\<open>MACCommand\<close> is declared in another file of the package. fhdr.go reads and
  writes its field \<^verbatim>\<open>uplink\<close> only (here \<open>muplink\<close>, since \<^verbatim>\<open>FHDR\<close> has a field of
  the same name); \<open>mfields\<close> holds whatever else the struct has (the identifier and
  the payload).
\<close>

record 'p MACCommand =
  muplink :: bool
  mfields :: 'p

record 'p FHDR =
  DevAddr :: DevAddr
  FCtrl :: FCtrl
  Fcnt :: "16 word"
  FOpts :: "'p MACCommand list"
  uplink :: bool

text \<open>
  What fhdr.go uses of the rest of the package, taken as a parameter: the ten
  identifier constants of the \<^verbatim>\<open>switch\<close> in \<^verbatim>\<open>FHDR.UnmarshalBinary\<close> (of type
  \<^verbatim>\<open>cid\<close>, a byte), the zero value of the other fields of a \<^verbatim>\<open>MACCommand\<close>,
  and the two methods of \<^verbatim>\<open>MACCommand\<close>: \<^verbatim>\<open>MarshalBinary\<close> (the bytes and the
  error) and \<^verbatim>\<open>UnmarshalBinary\<close> (pointer receiver: the error and the command as
  the call leaves it).
\<close>

record 'p pkg =
  LinkCheckAns :: byte
  LinkADRReq :: byte
  LinkADRAns :: byte
  DutyCycleReq :: byte
  RXParamSetupReq :: byte
  RXParamSetupAns :: byte
  DevStatusAns :: byte
  NewChannelReq :: byte
  NewChannelAns :: byte
  RXTimingSetupReq :: byte
  mac_zero :: 'p
  mac_MarshalBinary :: "'p MACCommand \<Rightarrow> byte list \<times> error option"
  mac_UnmarshalBinary :: "'p MACCommand \<Rightarrow> byte list \<Rightarrow> error option \<times> 'p MACCommand"

subsection \<open>Slices and encoding/binary\<close>

text \<open>
  \<^verbatim>\<open>s[lo:hi]\<close>. Go panics when \<open>hi\<close> is beyond the slice; every slice expression
  of fhdr.go is taken under a length check that excludes it.
\<close>

definition slice :: "'a list \<Rightarrow> nat \<Rightarrow> nat \<Rightarrow> 'a list" where
  "slice s lo hi = take (hi - lo) (drop lo s)"

text \<open>\<^verbatim>\<open>binary.LittleEndian\<close>: \<^verbatim>\<open>PutUint32\<close> and \<^verbatim>\<open>PutUint16\<close> write into the slice
  they are given, \<^verbatim>\<open>Uint32\<close> and \<^verbatim>\<open>Uint16\<close> read it.\<close>

definition PutUint32 :: "byte list \<Rightarrow> 32 word \<Rightarrow> byte list" where
  "PutUint32 b v =
     b[0 := ucast v, 1 := ucast (drop_bit 8 v), 2 := ucast (drop_bit 16 v),
       3 := ucast (drop_bit 24 v)]"

definition Uint32 :: "byte list \<Rightarrow> 32 word" where
  "Uint32 b =
     ucast (b ! 0) OR push_bit 8 (ucast (b ! 1)) OR push_bit 16 (ucast (b ! 2))
       OR push_bit 24 (ucast (b ! 3))"

definition PutUint16 :: "byte list \<Rightarrow> 16 word \<Rightarrow> byte list" where
  "PutUint16 b v = b[0 := ucast v, 1 := ucast (drop_bit 8 v)]"

definition Uint16 :: "byte list \<Rightarrow> 16 word" where
  "Uint16 b = ucast (b ! 0) OR push_bit 8 (ucast (b ! 1))"

subsection \<open>DevAddr\<close>

definition DevAddr_MarshalBinary :: "DevAddr \<Rightarrow> byte list \<times> error option" where
  "DevAddr_MarshalBinary a = (PutUint32 (replicate 4 0) a, None)"

definition DevAddr_UnmarshalBinary :: "DevAddr \<Rightarrow> byte list \<Rightarrow> error option \<times> DevAddr" where
  "DevAddr_UnmarshalBinary a data =
     (if length data \<noteq> 4 then (Some Err4BytesExpected, a)
      else (None, Uint32 data))"

subsection \<open>FCtrl\<close>

definition FCtrl_MarshalBinary :: "FCtrl \<Rightarrow> byte list \<times> error option" where
  "FCtrl_MarshalBinary c =
     (if fOptsLen c > 15 then ([], Some ErrMaxFOptsLen)
      else
        let b = fOptsLen c;
            b = (if FPending c then b XOR push_bit 4 1 else b);
            b = (if ACK c then b XOR push_bit 5 1 else b);
            b = (if ADRACKReq c then b XOR push_bit 6 1 else b);
            b = (if ADR c then b XOR push_bit 7 1 else b)
        in ([b], None))"

definition FCtrl_UnmarshalBinary :: "FCtrl \<Rightarrow> byte list \<Rightarrow> error option \<times> FCtrl" where
  "FCtrl_UnmarshalBinary c data =
     (if length data \<noteq> 1 then (Some Err1ByteExpected, c)
      else
        (None,
         c\<lparr>fOptsLen := (data ! 0) AND (push_bit 3 1 XOR push_bit 2 1 XOR push_bit 1 1 XOR push_bit 0 1),
           FPending := (data ! 0) AND push_bit 4 1 > 0,
           ACK := (data ! 0) AND push_bit 5 1 > 0,
           ADRACKReq := (data ! 0) AND push_bit 6 1 > 0,
           ADR := (data ! 0) AND push_bit 7 1 > 0\<rparr>))"

subsection \<open>FHDR.MarshalBinary\<close>

text \<open>
  The \<^verbatim>\<open>range\<close> loop over \<^verbatim>\<open>h.FOpts\<close>: \<open>mac\<close> is a copy of the element, its
  \<^verbatim>\<open>uplink\<close> is set on the copy, and the bytes of each command are appended to
  \<open>opts\<close>. The first error ends the method with an empty slice.
\<close>

fun marshal_FOpts ::
  "'p pkg \<Rightarrow> bool \<Rightarrow> 'p MACCommand list \<Rightarrow> byte list \<Rightarrow> byte list \<times> error option" where
  "marshal_FOpts P up [] opts = (opts, None)"
| "marshal_FOpts P up (mac # macs) opts =
     (let mac = mac\<lparr>muplink := up\<rparr> in
      case mac_MarshalBinary P mac of
        (b, Some err) \<Rightarrow> ([], Some err)
      | (b, None) \<Rightarrow> marshal_FOpts P up macs (opts @ b))"

text \<open>
  The body of \<^verbatim>\<open>FHDR.MarshalBinary\<close>. \<open>h\<close> is the method's own copy of the
  receiver; the function returns the two results and that copy as the body leaves
  it (the assignment to \<^verbatim>\<open>h.FCtrl.fOptsLen\<close> changes it). \<^verbatim>\<open>uint8(len(opts))\<close>
  keeps the low eight bits of the length.
\<close>

definition FHDR_MarshalBinary_body ::
  "'p pkg \<Rightarrow> 'p FHDR \<Rightarrow> (byte list \<times> error option) \<times> 'p FHDR" where
  "FHDR_MarshalBinary_body P h =
     (case marshal_FOpts P (uplink h) (FOpts h) [] of
        (opts, Some err) \<Rightarrow> (([], Some err), h)
      | (opts, None) \<Rightarrow>
          let h = h\<lparr>FCtrl := (FCtrl h)\<lparr>fOptsLen := of_nat (length opts)\<rparr>\<rparr> in
          if fOptsLen (FCtrl h) > 15 then (([], Some ErrMaxFOptsBytes), h)
          else
            let out = [] in
            (case DevAddr_MarshalBinary (DevAddr h) of
               (b, Some err) \<Rightarrow> (([], Some err), h)
             | (b, None) \<Rightarrow>
                 let out = out @ b in
                 (case FCtrl_MarshalBinary (FCtrl h) of
                    (b, Some err) \<Rightarrow> (([], Some err), h)
                  | (b, None) \<Rightarrow>
                      let out = out @ b;
                          out = out @ [0, 0];
                          out = take 5 out @ PutUint16 (slice out 5 7) (Fcnt h) @ drop 7 out;
                          out = out @ opts
                      in ((out, None), h))))"

text \<open>The two results of the method.\<close>

definition FHDR_MarshalBinary :: "'p pkg \<Rightarrow> 'p FHDR \<Rightarrow> byte list \<times> error option" where
  "FHDR_MarshalBinary P h = fst (FHDR_MarshalBinary_body P h)"

text \<open>
  A call \<^verbatim>\<open>x.MarshalBinary()\<close> on a caller's header \<open>x\<close>: the receiver is passed
  by value, so the body runs on a copy of the struct. The copy shares the backing
  array of \<^verbatim>\<open>FOpts\<close> with \<open>x\<close>: after the call the caller's header has its own
  scalar fields and the commands as the body left them in that array. The function
  returns the results and the caller's header after the call.
\<close>

definition call_FHDR_MarshalBinary ::
  "'p pkg \<Rightarrow> 'p FHDR \<Rightarrow> (byte list \<times> error option) \<times> 'p FHDR" where
  "call_FHDR_MarshalBinary P x =
     (case FHDR_MarshalBinary_body P x of
        (res, h) \<Rightarrow> (res, x\<lparr>FOpts := FOpts h\<rparr>))"

subsection \<open>FHDR.UnmarshalBinary\<close>

text \<open>The \<^verbatim>\<open>switch\<close> that sets \<open>pLen\<close> from the direction and the identifier byte.\<close>

definition pLen :: "'p pkg \<Rightarrow> bool \<Rightarrow> byte \<Rightarrow> nat" where
  "pLen P up c =
     (if \<not> up \<and> c = LinkCheckAns P then 2
      else if \<not> up \<and> c = LinkADRReq P then 4
      else if up \<and> c = LinkADRAns P then 1
      else if \<not> up \<and> c = DutyCycleReq P then 1
      else if \<not> up \<and> c = RXParamSetupReq P then 4
      else if up \<and> c = RXParamSetupAns P then 1
      else if up \<and> c = DevStatusAns P then 2
      else if \<not> up \<and> c = NewChannelReq P then 4
      else if up \<and> c = NewChannelAns P then 1
      else if \<not> up \<and> c = RXTimingSetupReq P then 1
      else 0)"

text \<open>
  The \<^verbatim>\<open>for\<close> loop of the scan, from index \<open>i\<close>: the header is the receiver as the
  loop has changed it so far. The increment of the loop header and
  \<^verbatim>\<open>i = i + pLen\<close> together move \<open>i\<close> by \<open>pLen + 1\<close>.
\<close>

function FOpts_loop ::
  "'p pkg \<Rightarrow> byte list \<Rightarrow> nat \<Rightarrow> 'p FHDR \<Rightarrow> error option \<times> 'p FHDR" where
  "FOpts_loop P data i h =
     (if i < length (drop 7 data) then
        let n = pLen P (uplink h) (data ! (7 + i)) in
        if length (drop (7 + i) data) < n + 1 then (Some ErrNotEnoughBytes, h)
        else
          let mc = \<lparr>muplink = uplink h, mfields = mac_zero P\<rparr> in
          case mac_UnmarshalBinary P mc (slice data (7 + i) (7 + i + 1 + n)) of
            (Some err, mc) \<Rightarrow> (Some err, h)
          | (None, mc) \<Rightarrow> FOpts_loop P data (i + n + 1) (h\<lparr>FOpts := FOpts h @ [mc]\<rparr>)
      else (None, h))"
  by pat_completeness auto
termination
  by (relation "measure (\<lambda>(P, data, i, h). length data - i)") auto

definition FHDR_UnmarshalBinary ::
  "'p pkg \<Rightarrow> 'p FHDR \<Rightarrow> byte list \<Rightarrow> error option \<times> 'p FHDR" where
  "FHDR_UnmarshalBinary P h data =
     (if length data < 7 then (Some ErrAtLeast7Bytes, h)
      else
        case DevAddr_UnmarshalBinary (DevAddr h) (slice data 0 4) of
          (Some err, a) \<Rightarrow> (Some err, h\<lparr>DevAddr := a\<rparr>)
        | (None, a) \<Rightarrow>
            let h = h\<lparr>DevAddr := a\<rparr> in
            (case FCtrl_UnmarshalBinary (FCtrl h) (slice data 4 5) of
               (Some err, c) \<Rightarrow> (Some err, h\<lparr>FCtrl := c\<rparr>)
             | (None, c) \<Rightarrow>
                 let h = h\<lparr>FCtrl := c\<rparr>;
                     h = h\<lparr>Fcnt := Uint16 (slice data 5 7)\<rparr>
                 in if length data > 7 then FOpts_loop P data 0 h else (None, h)))"

subsection \<open>Vocabulary of the statements\<close>

text \<open>The byte \<^verbatim>\<open>FCtrl.MarshalBinary\<close> returns.\<close>

definition flags_byte :: "FCtrl \<Rightarrow> byte" where
  "flags_byte c = hd (fst (FCtrl_MarshalBinary c))"

text \<open>
  The header as the three assignments of \<^verbatim>\<open>FHDR.UnmarshalBinary\<close> before the scan
  leave it: \<^verbatim>\<open>DevAddr\<close>, \<^verbatim>\<open>FCtrl\<close> and \<^verbatim>\<open>Fcnt\<close> read from the first seven bytes.
\<close>

definition decode_prefix :: "'p FHDR \<Rightarrow> byte list \<Rightarrow> 'p FHDR" where
  "decode_prefix h data =
     h\<lparr>DevAddr := Uint32 (slice data 0 4),
       FCtrl := snd (FCtrl_UnmarshalBinary (FCtrl h) (slice data 4 5)),
       Fcnt := Uint16 (slice data 5 7)\<rparr>"

text \<open>
  A well-formed encoded command for direction \<open>up\<close>: an identifier byte followed by
  exactly as many payload bytes as the \<^verbatim>\<open>switch\<close> resolves for it, which
  \<^verbatim>\<open>MACCommand.UnmarshalBinary\<close> accepts, leaving the command \<open>mc\<close>.
\<close>

definition cmd_ok :: "'p pkg \<Rightarrow> bool \<Rightarrow> byte list \<Rightarrow> 'p MACCommand \<Rightarrow> bool" where
  "cmd_ok P up c mc \<longleftrightarrow>
     c \<noteq> [] \<and> length c = 1 + pLen P up (hd c) \<and>
     mac_UnmarshalBinary P \<lparr>muplink = up, mfields = mac_zero P\<rparr> c = (None, mc)"

text \<open>
  The scan fails at the first byte of \<open>rest\<close> with error \<open>e\<close>: either fewer bytes
  remain than the identifier and its resolved payload need, and the error is "not
  enough remaining bytes", or \<^verbatim>\<open>MACCommand.UnmarshalBinary\<close> returns \<open>e\<close> on the
  slice of the identifier and its payload.
\<close>

definition scan_failure :: "'p pkg \<Rightarrow> bool \<Rightarrow> byte list \<Rightarrow> error \<Rightarrow> bool" where
  "scan_failure P up rest e \<longleftrightarrow>
     rest \<noteq> [] \<and>
     (if length rest < pLen P up (hd rest) + 1 then e = ErrNotEnoughBytes
      else fst (mac_UnmarshalBinary P \<lparr>muplink = up, mfields = mac_zero P\<rparr>
             (take (pLen P up (hd rest) + 1) rest)) = Some e)"

text \<open>
  What a round trip needs of the \<^verbatim>\<open>MACCommand\<close> methods for a command \<open>m\<close> sent in
  direction \<open>up\<close>: \<^verbatim>\<open>MarshalBinary\<close> returns no error, its bytes are a well-formed
  encoded command, and \<^verbatim>\<open>UnmarshalBinary\<close> reads the command back from them.
\<close>

definition mac_contract :: "'p pkg \<Rightarrow> bool \<Rightarrow> 'p MACCommand \<Rightarrow> bool" where
  "mac_contract P up m \<longleftrightarrow>
     snd (mac_MarshalBinary P (m\<lparr>muplink := up\<rparr>)) = None \<and>
     cmd_ok P up (fst (mac_MarshalBinary P (m\<lparr>muplink := up\<rparr>))) (m\<lparr>muplink := up\<rparr>)"


subsection \<open>A concrete package and concrete headers\<close>

text \<open>
  Modelled from the spec: the identifier constants and the methods of \<^verbatim>\<open>MACCommand\<close>
  are declared outside fhdr.go. The spec describes a command as an identifier byte
  plus opaque payload bytes, with a fallible encoder and decoder; here the other fields
  of a command are its wire bytes, \<^verbatim>\<open>MarshalBinary\<close> returns them and
  \<^verbatim>\<open>UnmarshalBinary\<close> stores the slice it is given. Identifier 0x02 is
  \<^verbatim>\<open>LinkCheckAns\<close>, as in the spec's direction scenario; the other identifiers are
  numbered 3 to 8 in the order of LoRaWAN 1.0. The package is used only to evaluate
  the methods of fhdr.go at concrete inputs.
\<close>

definition raw_pkg :: "byte list pkg" where
  "raw_pkg =
     \<lparr>LinkCheckAns = 2, LinkADRReq = 3, LinkADRAns = 3, DutyCycleReq = 4,
      RXParamSetupReq = 5, RXParamSetupAns = 5, DevStatusAns = 6, NewChannelReq = 7,
      NewChannelAns = 7, RXTimingSetupReq = 8,
      mac_zero = [],
      mac_MarshalBinary = (\<lambda>m. (mfields m, None)),
      mac_UnmarshalBinary = (\<lambda>m data. (None, m\<lparr>mfields := data\<rparr>))\<rparr>"

text \<open>The zero value of \<^verbatim>\<open>FHDR\<close> with its direction set.\<close>

definition fresh_hdr :: "bool \<Rightarrow> byte list FHDR" where
  "fresh_hdr up =
     \<lparr>DevAddr = 0,
      FCtrl = \<lparr>ADR = False, ADRACKReq = False, ACK = False, FPending = False, fOptsLen = 0\<rparr>,
      Fcnt = 0, FOpts = [], uplink = up\<rparr>"

text \<open>
  A downlink header with two commands, a \<^verbatim>\<open>LinkCheckAns\<close> with two payload bytes and
  a command 0x06 without payload whose own \<^verbatim>\<open>uplink\<close> field differs from the header's,
  and a stale \<^verbatim>\<open>fOptsLen\<close>.
\<close>

definition ex_hdr :: "byte list FHDR" where
  "ex_hdr =
     \<lparr>DevAddr = 0x01020304,
      FCtrl = \<lparr>ADR = True, ADRACKReq = False, ACK = True, FPending = False, fOptsLen = 9\<rparr>,
      Fcnt = 0x1234,
      FOpts = [\<lparr>muplink = False, mfields = [2, 10, 20]\<rparr>, \<lparr>muplink = True, mfields = [6]\<rparr>],
      uplink = False\<rparr>"

text \<open>
  An uplink header with one command for each of the four uplink cases of the
  \<^verbatim>\<open>switch\<close>: identifiers 3, 5 and 7 with one payload byte, 6 with two.
\<close>

definition ex_up_hdr :: "byte list FHDR" where
  "ex_up_hdr =
     \<lparr>DevAddr = 0x26011BDA,
      FCtrl = \<lparr>ADR = False, ADRACKReq = True, ACK = False, FPending = False, fOptsLen = 0\<rparr>,
      Fcnt = 0xFFFF,
      FOpts = [\<lparr>muplink = True, mfields = [3, 7]\<rparr>, \<lparr>muplink = True, mfields = [5, 1]\<rparr>,
               \<lparr>muplink = True, mfields = [6, 255, 10]\<rparr>, \<lparr>muplink = True, mfields = [7, 3]\<rparr>],
      uplink = True\<rparr>"

text \<open>
  A downlink header with one command of identifier 0x80, which has no case in the
  \<^verbatim>\<open>switch\<close>, and two payload bytes.
\<close>

definition prop_hdr :: "byte list FHDR" where
  "prop_hdr = (fresh_hdr False)\<lparr>FOpts := [\<lparr>muplink = False, mfields = [0x80, 1, 2]\<rparr>]\<rparr>"

text \<open>An uplink header with 256 commands of one byte each.\<close>

definition ex256_hdr :: "byte list FHDR" where
  "ex256_hdr = (fresh_hdr True)\<lparr>FOpts := replicate 256 \<lparr>muplink = True, mfields = [2]\<rparr>\<rparr>"

text \<open>The seven bytes of a header with address 0x01020304, \<^verbatim>\<open>ADR\<close> set and counter 5.\<close>

definition ex_prefix :: "byte list" where
  "ex_prefix = [4, 3, 2, 1, 0x80, 5, 0]"

text \<open>Six downlink commands, 22 bytes together.\<close>

definition long_chunks :: "byte list list" where
  "long_chunks = [[3, 1, 2, 3, 4], [5, 1, 2, 3, 4], [7, 1, 2, 3, 4], [2, 1, 2], [4, 1], [8, 1]]"

text \<open>
  A downlink input that ends inside a command: the prefix, a \<^verbatim>\<open>DutyCycleReq\<close> with
  its payload byte, then identifier 0x02 with none of its two payload bytes.
\<close>

definition trunc_data :: "byte list" where
  "trunc_data = [4, 3, 2, 1, 0x80, 5, 0, 4, 1, 2]"

text \<open>A downlink input with one command.\<close>

definition reuse_data :: "byte list" where
  "reuse_data = [4, 3, 2, 1, 0x80, 5, 0, 4, 1]"

section \<open>Lemmas\<close>

subsection \<open>Bytes and bits\<close>

lemma le_uint32: "(ucast (ucast a :: byte) OR push_bit 8 (ucast (ucast (drop_bit 8 a) :: byte)) OR push_bit 16 (ucast (ucast (drop_bit 16 a) :: byte)) OR push_bit 24 (ucast (ucast (drop_bit 24 a) :: byte)) :: 32 word) = a"
proof (rule bit_word_eqI)
  fix n :: nat
  assume "n < LENGTH(32)"
  then consider "n < 8" | "8 \<le> n" "n < 16" | "16 \<le> n" "n < 24" | "24 \<le> n" "n < 32"
    by fastforce
  then show "bit (ucast (ucast a :: byte) OR push_bit 8 (ucast (ucast (drop_bit 8 a) :: byte)) OR push_bit 16 (ucast (ucast (drop_bit 16 a) :: byte)) OR push_bit 24 (ucast (ucast (drop_bit 24 a) :: byte)) :: 32 word) n = bit a n"
    by cases (auto simp: bit_simps)
qed

lemma PutUint32_bytes:
  "PutUint32 (replicate 4 0) a =
     [ucast a, ucast (drop_bit 8 a), ucast (drop_bit 16 a), ucast (drop_bit 24 a)]"
  by (simp add: PutUint32_def numeral_eq_Suc)

lemma Uint32_bytes:
  "Uint32 [b0, b1, b2, b3] =
     ucast b0 OR push_bit 8 (ucast b1) OR push_bit 16 (ucast b2) OR push_bit 24 (ucast b3)"
  by (simp add: Uint32_def numeral_eq_Suc)

lemma Uint32_PutUint32: "Uint32 (PutUint32 (replicate 4 0) a) = a"
  by (simp only: PutUint32_bytes Uint32_bytes le_uint32)

lemma Uint16_bytes: "Uint16 [ucast v, ucast (drop_bit 8 v)] = v"
  unfolding Uint16_def
  by (rule bit_word_eqI) (auto simp: bit_simps)

lemma test_bit: "(w AND push_bit k 1 > 0) = bit w k" for w :: byte
  by (simp add: word_greater_zero_iff push_bit_of_1 and_exp_eq_0_iff_not_bit)

lemma test_bits:
  fixes w :: byte
  shows "(0 < w AND 16) = bit w 4" "(0 < w AND 32) = bit w 5" "(0 < w AND 64) = bit w 6" "(0 < w AND 128) = bit w 7"
  using test_bit[of w 4] test_bit[of w 5] test_bit[of w 6] test_bit[of w 7] by simp_all

lemma le15_mask: "(n::byte) \<le> 15 \<Longrightarrow> n AND mask 4 = n"
  by (rule less_mask_eq) (simp add: word_le_nat_alt word_less_nat_alt)

lemma le15_bit: assumes "(n::byte) \<le> 15" shows "bit n k \<longleftrightarrow> bit n k \<and> k < 4"
proof -
  have "bit n k = bit (n AND mask 4) k" using le15_mask[OF assms] by simp
  then show ?thesis by (auto simp: bit_simps)
qed

lemma mask4: "(15 :: byte) = mask 4" by (simp add: mask_eq_exp_minus_1)

lemma bit_flag_consts:
  "bit (16 :: int) n = (n = 4)" "bit (32 :: int) n = (n = 5)"
  "bit (64 :: int) n = (n = 6)" "bit (128 :: int) n = (n = 7)"
proof -
  have e: "(16 :: int) = 2 ^ 4" "(32 :: int) = 2 ^ 5" "(64 :: int) = 2 ^ 6" "(128 :: int) = 2 ^ 7"
    by simp_all
  show "bit (16 :: int) n = (n = 4)" "bit (32 :: int) n = (n = 5)"
    "bit (64 :: int) n = (n = 6)" "bit (128 :: int) n = (n = 7)"
    unfolding e by (auto simp only: bit_exp_iff possible_bit_int simp_thms)
qed

lemma of_nat_le_15: "n \<le> 15 \<Longrightarrow> (of_nat n :: byte) \<le> 15"
  by (simp add: word_le_nat_alt unat_of_nat take_bit_nat_eq_self)

lemma of_nat_byte_le_15_iff: "((of_nat n :: byte) \<le> 15) = (n mod 256 \<le> 15)"
  by (simp add: word_le_nat_alt unat_of_nat take_bit_eq_mod)

lemma concat_replicate_single: "concat (replicate n [a]) = replicate n a"
  by (induction n) simp_all

subsection \<open>The flags byte\<close>

lemma FCtrl_MarshalBinary_ok:
  assumes "fOptsLen c \<le> 15"
  shows "FCtrl_MarshalBinary c = ([flags_byte c], None)"
proof -
  from assms have "\<not> fOptsLen c > 15" by (simp add: not_less)
  then show ?thesis by (simp add: flags_byte_def FCtrl_MarshalBinary_def Let_def)
qed

lemma flags_byte_bits:
  assumes "fOptsLen c \<le> 15"
  shows "flags_byte c AND 15 = fOptsLen c" "bit (flags_byte c) 4 = FPending c" "bit (flags_byte c) 5 = ACK c"
   "bit (flags_byte c) 6 = ADRACKReq c" "bit (flags_byte c) 7 = ADR c"
proof -
  have hi: "\<not> bit (fOptsLen c) k" if "4 \<le> k" for k using le15_bit[OF assms, of k] that by auto
  have b: "flags_byte c = (let b = fOptsLen c;
            b = (if FPending c then b XOR push_bit 4 1 else b);
            b = (if ACK c then b XOR push_bit 5 1 else b);
            b = (if ADRACKReq c then b XOR push_bit 6 1 else b);
            b = (if ADR c then b XOR push_bit 7 1 else b) in b)"
    using FCtrl_MarshalBinary_ok[OF assms] by (simp add: FCtrl_MarshalBinary_def Let_def split: if_splits)
  show "bit (flags_byte c) 4 = FPending c" "bit (flags_byte c) 5 = ACK c"
   "bit (flags_byte c) 6 = ADRACKReq c" "bit (flags_byte c) 7 = ADR c"
    by (auto simp: b Let_def bit_simps bit_flag_consts hi)
  show "flags_byte c AND 15 = fOptsLen c"
  proof (rule bit_word_eqI)
    fix n :: nat
    show "bit (flags_byte c AND 15) n = bit (fOptsLen c) n"
    proof (cases "n < 4")
      case True
      then show ?thesis unfolding mask4 by (simp add: b Let_def bit_simps bit_flag_consts)
    next
      case False
      then show ?thesis unfolding mask4 by (simp add: bit_simps hi)
    qed
  qed
qed

lemma FCtrl_roundtrip:
  assumes "fOptsLen c \<le> 15"
  shows "FCtrl_UnmarshalBinary c0 [flags_byte c] = (None, c0\<lparr>fOptsLen := fOptsLen c, FPending := FPending c, ACK := ACK c, ADRACKReq := ADRACKReq c, ADR := ADR c\<rparr>)"
  by (simp add: FCtrl_UnmarshalBinary_def test_bits flags_byte_bits[OF assms])

subsection \<open>The scan of the commands\<close>

text \<open>
  The equation of the loop rewrites its own right-hand side; it is unfolded one
  iteration at a time.
\<close>

declare FOpts_loop.simps [simp del]

lemma FOpts_loop_unfold:
  assumes "n = pLen P (uplink h) (data ! (7 + i))"
    and "r = mac_UnmarshalBinary P \<lparr>muplink = uplink h, mfields = mac_zero P\<rparr>
        (slice data (7 + i) (7 + i + 1 + n))"
  shows "FOpts_loop P data i h =
     (if i < length (drop 7 data) then
        if length (drop (7 + i) data) < n + 1 then (Some ErrNotEnoughBytes, h)
        else
          case r of
            (Some err, mc) \<Rightarrow> (Some err, h)
          | (None, mc) \<Rightarrow> FOpts_loop P data (i + n + 1) (h\<lparr>FOpts := FOpts h @ [mc]\<rparr>)
      else (None, h))"
  by (subst FOpts_loop.simps) (simp only: Let_def assms)

lemma FOpts_loop_end: "length data \<le> 7 + i \<Longrightarrow> FOpts_loop P data i h = (None, h)"
  by (subst FOpts_loop.simps) simp

lemma FOpts_loop_step:
  assumes "length front = 7 + i" and "cmd_ok P (uplink h) c mc"
  shows "FOpts_loop P (front @ c @ rest) i h =
         FOpts_loop P (front @ c @ rest) (i + length c) (h\<lparr>FOpts := FOpts h @ [mc]\<rparr>)"
proof -
  from assms(2) obtain x xs where c: "c = x # xs" and len: "length xs = pLen P (uplink h) x"
    and un: "mac_UnmarshalBinary P \<lparr>muplink = uplink h, mfields = mac_zero P\<rparr> (x # xs) = (None, mc)"
    by (cases c) (auto simp: cmd_ok_def)
  define D where "D = front @ c @ rest"
  define n where "n = pLen P (uplink h) x"
  have lt: "i < length (drop 7 D)"
    using assms(1) by (simp add: D_def c)
  have nth: "D ! (7 + i) = x"
    using assms(1) by (simp add: D_def c nth_append)
  have enough: "\<not> length (drop (7 + i) D) < n + 1"
    using assms(1) len by (simp add: D_def c n_def)
  have sl: "slice D (7 + i) (7 + i + 1 + n) = x # xs"
    using assms(1) len by (simp add: slice_def D_def c n_def)
  have "FOpts_loop P D i h = FOpts_loop P D (i + n + 1) (h\<lparr>FOpts := FOpts h @ [mc]\<rparr>)"
    by (subst FOpts_loop.simps)
      (simp only: lt nth enough sl un Let_def if_True if_False prod.case option.case
        flip: n_def)
  also have "i + n + 1 = i + length c"
    by (simp add: c len n_def)
  finally show ?thesis by (simp only: D_def)
qed

lemma FOpts_loop_chunks:
  assumes "list_all2 (cmd_ok P up) chunks mcs" and "length front = 7 + i" and "uplink h = up"
  shows "FOpts_loop P (front @ concat chunks @ rest) i h =
         FOpts_loop P (front @ concat chunks @ rest) (i + length (concat chunks))
           (h\<lparr>FOpts := FOpts h @ mcs\<rparr>)"
  using assms
proof (induction chunks mcs arbitrary: front i h rule: list_all2_induct)
  case Nil
  then show ?case by simp
next
  case (Cons c cs mc ms front i h)
  from Cons.hyps(1) Cons.prems(2) have ok: "cmd_ok P (uplink h) c mc" by simp
  have "FOpts_loop P (front @ concat (c # cs) @ rest) i h =
        FOpts_loop P (front @ c @ (concat cs @ rest)) (i + length c) (h\<lparr>FOpts := FOpts h @ [mc]\<rparr>)"
    using FOpts_loop_step[OF Cons.prems(1) ok, of "concat cs @ rest"] by simp
  also have "\<dots> = FOpts_loop P ((front @ c) @ concat cs @ rest) (i + length c)
      (h\<lparr>FOpts := FOpts h @ [mc]\<rparr>)" by simp
  also have "\<dots> = FOpts_loop P ((front @ c) @ concat cs @ rest) (i + length c + length (concat cs))
      (h\<lparr>FOpts := FOpts h @ [mc]\<rparr>\<lparr>FOpts := FOpts (h\<lparr>FOpts := FOpts h @ [mc]\<rparr>) @ ms\<rparr>)"
    by (rule Cons.IH) (use Cons.prems in simp_all)
  finally show ?case by (simp add: add.assoc)
qed

lemma FOpts_loop_truncated:
  assumes "length front = 7 + i" and "length rest < pLen P (uplink h) c"
  shows "FOpts_loop P (front @ c # rest) i h = (Some ErrNotEnoughBytes, h)"
proof -
  have nth: "(front @ c # rest) ! (7 + i) = c"
    using assms(1) by (simp add: nth_append)
  show ?thesis
    using assms by (subst FOpts_loop.simps) (simp add: nth Let_def)
qed

lemma FOpts_loop_scan_failure:
  assumes "length front = 7 + i" and "scan_failure P (uplink h) rest e"
  shows "FOpts_loop P (front @ rest) i h = (Some e, h)"
proof -
  define n where "n = pLen P (uplink h) ((front @ rest) ! (7 + i))"
  define r where "r = mac_UnmarshalBinary P \<lparr>muplink = uplink h, mfields = mac_zero P\<rparr>
        (slice (front @ rest) (7 + i) (7 + i + 1 + n))"
  note eq = FOpts_loop_unfold[OF n_def r_def]
  from assms(2) have ne: "rest \<noteq> []" by (simp add: scan_failure_def)
  then have nth: "(front @ rest) ! (7 + i) = hd rest"
    using assms(1) by (simp add: nth_append hd_conv_nth)
  have lt: "i < length (drop 7 (front @ rest))"
    using assms(1) ne by simp
  have dr: "drop (7 + i) (front @ rest) = rest"
    using assms(1) by simp
  have sl: "slice (front @ rest) (7 + i) (7 + i + 1 + n) = take (n + 1) rest"
    using assms(1) by (simp add: slice_def)
  have pl: "pLen P (uplink h) (hd rest) = n"
    by (simp add: n_def nth)
  have r2: "mac_UnmarshalBinary P \<lparr>muplink = uplink h, mfields = mac_zero P\<rparr>
        (take (n + 1) rest) = r"
    unfolding r_def sl ..
  show ?thesis
  proof (cases "length rest < n + 1")
    case True
    with assms(2) have "e = ErrNotEnoughBytes"
      unfolding scan_failure_def pl by simp
    with True show ?thesis
      unfolding eq dr by (simp only: lt if_True)
  next
    case False
    with assms(2) have "fst r = Some e"
      unfolding scan_failure_def pl r2 by simp
    then obtain mc where "r = (Some e, mc)" by (cases r) simp
    with False show ?thesis
      unfolding eq dr by (simp only: lt if_True if_False prod.case option.case)
  qed
qed

text \<open>
  The loop changes \<^verbatim>\<open>FOpts\<close> only, and only by appending; what it does depends on
  the commands already there in no other way.
\<close>

lemma FOpts_loop_frame:
  "FOpts_loop P data i h = (e, h') \<Longrightarrow>
     DevAddr h' = DevAddr h \<and> FCtrl h' = FCtrl h \<and> Fcnt h' = Fcnt h \<and>
     uplink h' = uplink h \<and> prefix (FOpts h) (FOpts h')"
proof (induction P data i h rule: FOpts_loop.induct)
  case (1 P data i h)
  define n where "n = pLen P (uplink h) (data ! (7 + i))"
  define r where "r = mac_UnmarshalBinary P \<lparr>muplink = uplink h, mfields = mac_zero P\<rparr>
        (slice data (7 + i) (7 + i + 1 + n))"
  note eq = FOpts_loop_unfold[OF n_def r_def]
  obtain err mc where r: "r = (err, mc)" by (cases r)
  consider (stop) "\<not> (i < length (drop 7 data) \<and> \<not> length (drop (7 + i) data) < n + 1)"
    | (fail) x where "i < length (drop 7 data)" "\<not> length (drop (7 + i) data) < n + 1" "err = Some x"
    | (go) "i < length (drop 7 data)" "\<not> length (drop (7 + i) data) < n + 1" "err = None"
    by (cases err) auto
  then show ?case
  proof cases
    case stop
    with "1.prems" show ?thesis
      unfolding eq by (auto split: if_splits)
  next
    case fail
    with "1.prems" r show ?thesis
      unfolding eq by simp
  next
    case go
    with "1.prems" r
    have rec: "FOpts_loop P data (i + n + 1) (h\<lparr>FOpts := FOpts h @ [mc]\<rparr>) = (e, h')"
      unfolding eq by simp
    from r go(3) have rr: "(None, mc) = mac_UnmarshalBinary P
        \<lparr>muplink = uplink h, mfields = mac_zero P\<rparr> (slice data (7 + i) (7 + i + 1 + n))"
      by (simp add: r_def)
    have "DevAddr h' = DevAddr (h\<lparr>FOpts := FOpts h @ [mc]\<rparr>) \<and>
          FCtrl h' = FCtrl (h\<lparr>FOpts := FOpts h @ [mc]\<rparr>) \<and>
          Fcnt h' = Fcnt (h\<lparr>FOpts := FOpts h @ [mc]\<rparr>) \<and>
          uplink h' = uplink (h\<lparr>FOpts := FOpts h @ [mc]\<rparr>) \<and>
          prefix (FOpts (h\<lparr>FOpts := FOpts h @ [mc]\<rparr>)) (FOpts h')"
      by (rule "1.IH"[OF go(1) n_def go(2) refl rr refl rec])
    then show ?thesis
      by (auto dest: append_prefixD)
  qed
qed

lemma FOpts_loop_append:
  "FOpts_loop P data i h = (e, h') \<Longrightarrow>
     FOpts_loop P data i (h\<lparr>FOpts := xs @ FOpts h\<rparr>) = (e, h'\<lparr>FOpts := xs @ FOpts h'\<rparr>)"
proof (induction P data i h rule: FOpts_loop.induct)
  case (1 P data i h)
  define n where "n = pLen P (uplink h) (data ! (7 + i))"
  define r where "r = mac_UnmarshalBinary P \<lparr>muplink = uplink h, mfields = mac_zero P\<rparr>
        (slice data (7 + i) (7 + i + 1 + n))"
  note eq = FOpts_loop_unfold[OF n_def r_def]
  have n': "n = pLen P (uplink (h\<lparr>FOpts := xs @ FOpts h\<rparr>)) (data ! (7 + i))"
    by (simp add: n_def)
  have r': "r = mac_UnmarshalBinary P
      \<lparr>muplink = uplink (h\<lparr>FOpts := xs @ FOpts h\<rparr>), mfields = mac_zero P\<rparr>
        (slice data (7 + i) (7 + i + 1 + n))"
    by (simp add: r_def)
  note eq' = FOpts_loop_unfold[OF n' r']
  obtain err mc where r: "r = (err, mc)" by (cases r)
  consider (stop) "\<not> (i < length (drop 7 data) \<and> \<not> length (drop (7 + i) data) < n + 1)"
    | (fail) x where "i < length (drop 7 data)" "\<not> length (drop (7 + i) data) < n + 1" "err = Some x"
    | (go) "i < length (drop 7 data)" "\<not> length (drop (7 + i) data) < n + 1" "err = None"
    by (cases err) auto
  then show ?case
  proof cases
    case stop
    with "1.prems" show ?thesis
      unfolding eq eq' by (auto split: if_splits)
  next
    case fail
    with "1.prems" r show ?thesis
      unfolding eq eq' by auto
  next
    case go
    with "1.prems" r
    have rec: "FOpts_loop P data (i + n + 1) (h\<lparr>FOpts := FOpts h @ [mc]\<rparr>) = (e, h')"
      unfolding eq by simp
    from r go(3) have rr: "(None, mc) = mac_UnmarshalBinary P
        \<lparr>muplink = uplink h, mfields = mac_zero P\<rparr> (slice data (7 + i) (7 + i + 1 + n))"
      by (simp add: r_def)
    have "FOpts_loop P data (i + n + 1)
            (h\<lparr>FOpts := FOpts h @ [mc]\<rparr>\<lparr>FOpts := xs @ FOpts (h\<lparr>FOpts := FOpts h @ [mc]\<rparr>)\<rparr>) =
          (e, h'\<lparr>FOpts := xs @ FOpts h'\<rparr>)"
      by (rule "1.IH"[OF go(1) n_def go(2) refl rr refl rec])
    with go r show ?thesis
      unfolding eq' by simp
  qed
qed

text \<open>
  A failed scan, taken apart: the well-formed commands it decoded, and the rest of the
  input, at whose first byte it failed.
\<close>

lemma FOpts_loop_failed:
  assumes "FOpts_loop P data i h = (Some e, h')"
  shows "\<exists>chunks mcs rest.
           drop (7 + i) data = concat chunks @ rest \<and>
           list_all2 (cmd_ok P (uplink h)) chunks mcs \<and>
           scan_failure P (uplink h) rest e \<and>
           h' = h\<lparr>FOpts := FOpts h @ mcs\<rparr>"
  using assms
proof (induction P data i h rule: FOpts_loop.induct)
  case (1 P data i h)
  define n where "n = pLen P (uplink h) (data ! (7 + i))"
  define r where "r = mac_UnmarshalBinary P \<lparr>muplink = uplink h, mfields = mac_zero P\<rparr>
        (slice data (7 + i) (7 + i + 1 + n))"
  note eq = FOpts_loop_unfold[OF n_def r_def]
  obtain err mc where r: "r = (err, mc)" by (cases r)
  have lt: "i < length (drop 7 data)"
    using "1.prems" unfolding eq by (auto split: if_splits)
  then have ne: "drop (7 + i) data \<noteq> []" by simp
  have hd: "hd (drop (7 + i) data) = data ! (7 + i)"
    using lt by (simp add: hd_drop_conv_nth)
  have sl: "slice data (7 + i) (7 + i + 1 + n) = take (n + 1) (drop (7 + i) data)"
    by (simp add: slice_def)
  have pl: "pLen P (uplink h) (hd (drop (7 + i) data)) = n"
    by (simp add: hd n_def)
  have r2: "mac_UnmarshalBinary P \<lparr>muplink = uplink h, mfields = mac_zero P\<rparr>
        (take (n + 1) (drop (7 + i) data)) = r"
    unfolding r_def sl ..
  consider (trunc) "length (drop (7 + i) data) < n + 1"
    | (fail) x where "\<not> length (drop (7 + i) data) < n + 1" "err = Some x"
    | (go) "\<not> length (drop (7 + i) data) < n + 1" "err = None"
    by (cases err) auto
  then show ?case
  proof cases
    case trunc
    with "1.prems" lt have res: "e = ErrNotEnoughBytes" "h' = h"
      unfolding eq by simp_all
    have "scan_failure P (uplink h) (drop (7 + i) data) e"
      unfolding scan_failure_def pl using trunc ne by (simp add: res)
    then show ?thesis
      by (intro exI[of _ "[]"] exI[of _ "drop (7 + i) data"]) (simp add: res)
  next
    case fail
    with "1.prems" lt r have res: "e = x" "h' = h"
      unfolding eq by simp_all
    have "scan_failure P (uplink h) (drop (7 + i) data) e"
      unfolding scan_failure_def pl r2 using fail ne r by (simp add: res)
    then show ?thesis
      by (intro exI[of _ "[]"] exI[of _ "drop (7 + i) data"]) (simp add: res)
  next
    case go
    with "1.prems" lt r
    have rec: "FOpts_loop P data (i + n + 1) (h\<lparr>FOpts := FOpts h @ [mc]\<rparr>) = (Some e, h')"
      unfolding eq by simp
    from r go(2) have rr: "(None, mc) = mac_UnmarshalBinary P
        \<lparr>muplink = uplink h, mfields = mac_zero P\<rparr> (slice data (7 + i) (7 + i + 1 + n))"
      by (simp add: r_def)
    from "1.IH"[OF lt n_def go(1) refl rr refl rec]
    obtain chunks mcs rest where
      d: "drop (7 + (i + n + 1)) data = concat chunks @ rest"
      and ok: "list_all2 (cmd_ok P (uplink h)) chunks mcs"
      and f: "scan_failure P (uplink h) rest e"
      and h': "h' = h\<lparr>FOpts := FOpts h @ mc # mcs\<rparr>"
      by auto
    define c where "c = take (n + 1) (drop (7 + i) data)"
    have "c \<noteq> []" "hd c = data ! (7 + i)" "length c = 1 + n"
      using go(1) ne hd by (simp_all add: c_def)
    moreover have "mac_UnmarshalBinary P \<lparr>muplink = uplink h, mfields = mac_zero P\<rparr> c = (None, mc)"
      unfolding c_def r2 using r go(2) by simp
    ultimately have c: "cmd_ok P (uplink h) c mc"
      by (simp add: cmd_ok_def n_def)
    have "drop (7 + i) data = c @ drop (n + 1) (drop (7 + i) data)"
      unfolding c_def by (rule append_take_drop_id[symmetric])
    also have "drop (n + 1) (drop (7 + i) data) = drop (7 + (i + n + 1)) data"
    proof -
      have "n + 1 + (7 + i) = 7 + (i + n + 1)" by arith
      then show ?thesis by (simp only: drop_drop)
    qed
    finally have "drop (7 + i) data = c @ drop (7 + (i + n + 1)) data" .
    then have "drop (7 + i) data = c @ concat chunks @ rest"
      by (simp only: d)
    then have "drop (7 + i) data = concat (c # chunks) @ rest"
      by simp
    moreover have "list_all2 (cmd_ok P (uplink h)) (c # chunks) (mc # mcs)"
      using c ok by simp
    ultimately show ?thesis
      using f h' by blast
  qed
qed

subsection \<open>Decoding a header\<close>

lemma FHDR_UnmarshalBinary_short:
  "length data < 7 \<Longrightarrow> FHDR_UnmarshalBinary P h data = (Some ErrAtLeast7Bytes, h)"
  by (simp add: FHDR_UnmarshalBinary_def)

lemma FHDR_UnmarshalBinary_ge7:
  assumes "7 \<le> length data"
  shows "FHDR_UnmarshalBinary P h data = FOpts_loop P data 0 (decode_prefix h data)"
proof -
  have l4: "length (slice data 0 4) = 4" and l1: "length (slice data 4 5) = 1"
    using assms by (simp_all add: slice_def)
  have "FHDR_UnmarshalBinary P h data =
      (if length data > 7 then FOpts_loop P data 0 (decode_prefix h data)
       else (None, decode_prefix h data))"
    using assms l4 l1
    by (simp add: FHDR_UnmarshalBinary_def DevAddr_UnmarshalBinary_def
        FCtrl_UnmarshalBinary_def decode_prefix_def Let_def)
  then show ?thesis
    using assms by (simp add: FOpts_loop_end)
qed

lemma decode_prefix_fields [simp]:
  "uplink (decode_prefix h data) = uplink h"
  "FOpts (decode_prefix h data) = FOpts h"
  by (simp_all add: decode_prefix_def)

lemma FHDR_UnmarshalBinary_chunks:
  assumes "length pre = 7" and "list_all2 (cmd_ok P (uplink h)) chunks mcs"
  shows "FHDR_UnmarshalBinary P h (pre @ concat chunks @ rest) =
         FOpts_loop P (pre @ concat chunks @ rest) (length (concat chunks))
           ((decode_prefix h (pre @ concat chunks @ rest))\<lparr>FOpts := FOpts h @ mcs\<rparr>)"
proof -
  have "FHDR_UnmarshalBinary P h (pre @ concat chunks @ rest) =
        FOpts_loop P (pre @ concat chunks @ rest) 0 (decode_prefix h (pre @ concat chunks @ rest))"
    using assms(1) by (simp add: FHDR_UnmarshalBinary_ge7)
  also have "\<dots> = FOpts_loop P (pre @ concat chunks @ rest) (0 + length (concat chunks))
        ((decode_prefix h (pre @ concat chunks @ rest))
           \<lparr>FOpts := FOpts (decode_prefix h (pre @ concat chunks @ rest)) @ mcs\<rparr>)"
    by (rule FOpts_loop_chunks[OF assms(2)]) (use assms(1) in simp_all)
  finally show ?thesis by simp
qed

lemma FHDR_UnmarshalBinary_wellformed:
  assumes "length pre = 7" and "list_all2 (cmd_ok P (uplink h)) chunks mcs"
  shows "FHDR_UnmarshalBinary P h (pre @ concat chunks) =
         (None, (decode_prefix h (pre @ concat chunks))\<lparr>FOpts := FOpts h @ mcs\<rparr>)"
  using FHDR_UnmarshalBinary_chunks[OF assms, of "[]"] assms(1)
  by (simp add: FOpts_loop_end)

lemma FHDR_UnmarshalBinary_truncated:
  assumes "length pre = 7" and "list_all2 (cmd_ok P (uplink h)) chunks mcs"
    and "length rest < pLen P (uplink h) c"
  shows "FHDR_UnmarshalBinary P h (pre @ concat chunks @ c # rest) =
         (Some ErrNotEnoughBytes,
          (decode_prefix h (pre @ concat chunks @ c # rest))\<lparr>FOpts := FOpts h @ mcs\<rparr>)"
proof -
  have "FOpts_loop P ((pre @ concat chunks) @ c # rest) (length (concat chunks))
           ((decode_prefix h (pre @ concat chunks @ c # rest))\<lparr>FOpts := FOpts h @ mcs\<rparr>) =
        (Some ErrNotEnoughBytes, (decode_prefix h (pre @ concat chunks @ c # rest))\<lparr>FOpts := FOpts h @ mcs\<rparr>)"
    by (rule FOpts_loop_truncated) (use assms in simp_all)
  then show ?thesis
    using FHDR_UnmarshalBinary_chunks[OF assms(1,2), of "c # rest"] by simp
qed

lemma FHDR_UnmarshalBinary_failed:
  assumes "FHDR_UnmarshalBinary P h data = (Some e, h')" and "7 \<le> length data"
  shows "\<exists>chunks mcs rest.
           drop 7 data = concat chunks @ rest \<and>
           list_all2 (cmd_ok P (uplink h)) chunks mcs \<and>
           scan_failure P (uplink h) rest e \<and>
           h' = (decode_prefix h data)\<lparr>FOpts := FOpts h @ mcs\<rparr>"
proof -
  from assms have "FOpts_loop P data 0 (decode_prefix h data) = (Some e, h')"
    by (simp add: FHDR_UnmarshalBinary_ge7)
  from FOpts_loop_failed[OF this] show ?thesis by simp
qed

lemma decode_into_reused:
  assumes "FHDR_UnmarshalBinary P (h\<lparr>FOpts := []\<rparr>) data = (e, h0)"
  shows "FHDR_UnmarshalBinary P h data = (e, h0\<lparr>FOpts := FOpts h @ FOpts h0\<rparr>)"
proof (cases "length data < 7")
  case True
  with assms show ?thesis by (auto simp: FHDR_UnmarshalBinary_short)
next
  case False
  then have ge: "7 \<le> length data" by simp
  have dp: "(decode_prefix (h\<lparr>FOpts := []\<rparr>) data)\<lparr>FOpts := FOpts h\<rparr> = decode_prefix h data"
    by (simp add: decode_prefix_def)
  from assms have "FOpts_loop P data 0 (decode_prefix (h\<lparr>FOpts := []\<rparr>) data) = (e, h0)"
    by (simp add: FHDR_UnmarshalBinary_ge7[OF ge])
  from FOpts_loop_append[OF this, of "FOpts h"] show ?thesis
    by (simp add: FHDR_UnmarshalBinary_ge7[OF ge] dp)
qed

lemma decode_prefix_ex:
  "decode_prefix h (ex_prefix @ rest) =
     h\<lparr>DevAddr := 0x01020304,
       FCtrl := (FCtrl h)\<lparr>fOptsLen := 0, FPending := False, ACK := False, ADRACKReq := False,
                ADR := True\<rparr>,
       Fcnt := 5\<rparr>"
  by (simp add: decode_prefix_def ex_prefix_def slice_def Uint32_bytes Uint16_def
      FCtrl_UnmarshalBinary_def)


subsection \<open>Encoding a header\<close>

lemma marshal_FOpts_concat:
  assumes "list_all (\<lambda>m. snd (mac_MarshalBinary P (m\<lparr>muplink := up\<rparr>)) = None) macs"
  shows "marshal_FOpts P up macs opts =
         (opts @ concat (map (\<lambda>m. fst (mac_MarshalBinary P (m\<lparr>muplink := up\<rparr>))) macs), None)"
  using assms
proof (induction macs arbitrary: opts)
  case Nil
  then show ?case by simp
next
  case (Cons m macs)
  obtain b e where be: "mac_MarshalBinary P (m\<lparr>muplink := up\<rparr>) = (b, e)"
    by (cases "mac_MarshalBinary P (m\<lparr>muplink := up\<rparr>)")
  with Cons.prems have "e = None" by simp
  with be Cons show ?case by (simp add: Let_def)
qed

lemma FHDR_MarshalBinary_body_ok:
  assumes "marshal_FOpts P (uplink h) (FOpts h) [] = (opts, None)"
    and "(of_nat (length opts) :: byte) \<le> 15"
  shows "FHDR_MarshalBinary_body P h =
     ((PutUint32 (replicate 4 0) (DevAddr h) @
        [flags_byte ((FCtrl h)\<lparr>fOptsLen := of_nat (length opts)\<rparr>),
         ucast (Fcnt h), ucast (drop_bit 8 (Fcnt h))] @ opts, None),
      h\<lparr>FCtrl := (FCtrl h)\<lparr>fOptsLen := of_nat (length opts)\<rparr>\<rparr>)"
proof -
  from assms(2) have nl: "\<not> (of_nat (length opts) :: byte) > 15" by (simp add: not_less)
  have fc: "FCtrl_MarshalBinary ((FCtrl h)\<lparr>fOptsLen := of_nat (length opts)\<rparr>) =
      ([flags_byte ((FCtrl h)\<lparr>fOptsLen := of_nat (length opts)\<rparr>)], None)"
    by (rule FCtrl_MarshalBinary_ok) (simp add: assms(2))
  show ?thesis
    by (simp add: FHDR_MarshalBinary_body_def assms(1) nl fc Let_def DevAddr_MarshalBinary_def
        PutUint32_bytes PutUint16_def slice_def)
qed

lemma FHDR_MarshalBinary_body_range:
  assumes "marshal_FOpts P (uplink h) (FOpts h) [] = (opts, None)"
    and "(of_nat (length opts) :: byte) > 15"
  shows "FHDR_MarshalBinary_body P h =
     (([], Some ErrMaxFOptsBytes), h\<lparr>FCtrl := (FCtrl h)\<lparr>fOptsLen := of_nat (length opts)\<rparr>\<rparr>)"
  by (simp add: FHDR_MarshalBinary_body_def assms Let_def)

lemma FHDR_MarshalBinary_body_FOpts:
  "FOpts (snd (FHDR_MarshalBinary_body P h)) = FOpts h"
  by (simp add: FHDR_MarshalBinary_body_def Let_def DevAddr_MarshalBinary_def
      split: prod.splits option.splits)

lemma contract_chunks:
  "list_all (mac_contract P up) macs \<Longrightarrow>
   list_all2 (cmd_ok P up) (map (\<lambda>m. fst (mac_MarshalBinary P (m\<lparr>muplink := up\<rparr>))) macs)
     (map (\<lambda>m. m\<lparr>muplink := up\<rparr>) macs)"
  by (induction macs) (simp_all add: mac_contract_def)

lemma contract_no_error:
  "list_all (mac_contract P up) macs \<Longrightarrow>
   list_all (\<lambda>m. snd (mac_MarshalBinary P (m\<lparr>muplink := up\<rparr>)) = None) macs"
  by (induction macs) (simp_all add: mac_contract_def)

subsection \<open>The concrete package\<close>

lemma raw_pkg_simps [simp]:
  "LinkCheckAns raw_pkg = 2" "LinkADRReq raw_pkg = 3" "LinkADRAns raw_pkg = 3"
  "DutyCycleReq raw_pkg = 4" "RXParamSetupReq raw_pkg = 5" "RXParamSetupAns raw_pkg = 5"
  "DevStatusAns raw_pkg = 6" "NewChannelReq raw_pkg = 7" "NewChannelAns raw_pkg = 7"
  "RXTimingSetupReq raw_pkg = 8" "mac_zero raw_pkg = []"
  "mac_MarshalBinary raw_pkg m = (mfields m, None)"
  "mac_UnmarshalBinary raw_pkg m data = (None, m\<lparr>mfields := data\<rparr>)"
  by (simp_all add: raw_pkg_def)

lemma marshal_256:
  "marshal_FOpts raw_pkg (uplink ex256_hdr) (FOpts ex256_hdr) [] = (replicate 256 2, None)"
proof -
  have "list_all (\<lambda>m. snd (mac_MarshalBinary raw_pkg (m\<lparr>muplink := True\<rparr>)) = None)
      (replicate 256 \<lparr>muplink = True, mfields = [2 :: byte]\<rparr>)"
    by (simp add: list_all_iff)
  from marshal_FOpts_concat[OF this, of "[]"] show ?thesis
    by (simp add: ex256_hdr_def fresh_hdr_def concat_replicate_single)
qed

lemma encode_256:
  "FHDR_MarshalBinary raw_pkg ex256_hdr = ([0, 0, 0, 0, 0, 0, 0] @ replicate 256 2, None)"
proof -
  have "(of_nat (length (replicate 256 (2 :: byte))) :: byte) \<le> 15"
    by simp
  from FHDR_MarshalBinary_body_ok[OF marshal_256 this] show ?thesis
    by (simp add: FHDR_MarshalBinary_def PutUint32_bytes flags_byte_def FCtrl_MarshalBinary_def)
       (simp add: ex256_hdr_def fresh_hdr_def)
qed

lemma trunc_decode:
  "FHDR_UnmarshalBinary raw_pkg (fresh_hdr False) trunc_data =
     (Some ErrNotEnoughBytes,
      \<lparr>DevAddr = 0x01020304,
       FCtrl = \<lparr>ADR = True, ADRACKReq = False, ACK = False, FPending = False, fOptsLen = 0\<rparr>,
       Fcnt = 5, FOpts = [\<lparr>muplink = False, mfields = [4, 1]\<rparr>], uplink = False\<rparr>)"
proof -
  have ok: "list_all2 (cmd_ok raw_pkg (uplink (fresh_hdr False))) [[4, 1]]
      [\<lparr>muplink = False, mfields = [4, 1]\<rparr>]"
    by (simp add: cmd_ok_def pLen_def fresh_hdr_def)
  have "FHDR_UnmarshalBinary raw_pkg (fresh_hdr False)
          ([4, 3, 2, 1, 0x80, 5, 0] @ concat [[4, 1]] @ 2 # []) =
        (Some ErrNotEnoughBytes,
         (decode_prefix (fresh_hdr False) ([4, 3, 2, 1, 0x80, 5, 0] @ concat [[4, 1]] @ 2 # []))
           \<lparr>FOpts := FOpts (fresh_hdr False) @ [\<lparr>muplink = False, mfields = [4, 1]\<rparr>]\<rparr>)"
    by (rule FHDR_UnmarshalBinary_truncated[OF _ ok]) (simp_all add: pLen_def fresh_hdr_def)
  then show ?thesis
    by (simp add: trunc_data_def decode_prefix_def fresh_hdr_def slice_def Uint32_bytes
        Uint16_def FCtrl_UnmarshalBinary_def)
qed

lemma reuse_decode:
  "FHDR_UnmarshalBinary raw_pkg ex_hdr reuse_data =
     (None,
      \<lparr>DevAddr = 0x01020304,
       FCtrl = \<lparr>ADR = True, ADRACKReq = False, ACK = False, FPending = False, fOptsLen = 0\<rparr>,
       Fcnt = 5,
       FOpts = [\<lparr>muplink = False, mfields = [2, 10, 20]\<rparr>, \<lparr>muplink = True, mfields = [6]\<rparr>,
                \<lparr>muplink = False, mfields = [4, 1]\<rparr>],
       uplink = False\<rparr>)"
proof -
  have l: "length ex_prefix = 7" by (simp add: ex_prefix_def)
  have ok: "list_all2 (cmd_ok raw_pkg (uplink ex_hdr)) [[4, 1]] [\<lparr>muplink = False, mfields = [4, 1]\<rparr>]"
    by (simp add: cmd_ok_def pLen_def ex_hdr_def)
  have "reuse_data = ex_prefix @ concat [[4, 1]]"
    by (simp add: reuse_data_def ex_prefix_def)
  with FHDR_UnmarshalBinary_wellformed[OF l ok] show ?thesis
    by (simp add: decode_prefix_ex) (simp add: ex_hdr_def)
qed

lemma ex_encode:
  "FHDR_MarshalBinary raw_pkg ex_hdr = ([4, 3, 2, 1, 0xA4, 0x34, 0x12, 2, 10, 20, 6], None)"
proof -
  have m: "marshal_FOpts raw_pkg (uplink ex_hdr) (FOpts ex_hdr) [] = ([2, 10, 20, 6], None)"
    by (simp add: ex_hdr_def)
  show ?thesis
    by (simp add: FHDR_MarshalBinary_def FHDR_MarshalBinary_body_def m Let_def
        DevAddr_MarshalBinary_def FCtrl_MarshalBinary_def PutUint32_bytes PutUint16_def slice_def)
       (simp add: ex_hdr_def)
qed

lemma ex_up_encode:
  "FHDR_MarshalBinary raw_pkg ex_up_hdr =
     ([0xDA, 0x1B, 0x01, 0x26, 0x49, 0xFF, 0xFF, 3, 7, 5, 1, 6, 255, 10, 7, 3], None)"
proof -
  have m: "marshal_FOpts raw_pkg (uplink ex_up_hdr) (FOpts ex_up_hdr) [] =
      ([3, 7, 5, 1, 6, 255, 10, 7, 3], None)"
    by (simp add: ex_up_hdr_def)
  show ?thesis
    by (simp add: FHDR_MarshalBinary_def FHDR_MarshalBinary_body_def m Let_def
        DevAddr_MarshalBinary_def FCtrl_MarshalBinary_def PutUint32_bytes PutUint16_def slice_def)
       (simp add: ex_up_hdr_def)
qed

lemma prop_encode:
  "FHDR_MarshalBinary raw_pkg prop_hdr = ([0, 0, 0, 0, 3, 0, 0, 0x80, 1, 2], None)"
proof -
  have m: "marshal_FOpts raw_pkg (uplink prop_hdr) (FOpts prop_hdr) [] = ([0x80, 1, 2], None)"
    by (simp add: prop_hdr_def fresh_hdr_def)
  show ?thesis
    by (simp add: FHDR_MarshalBinary_def FHDR_MarshalBinary_body_def m Let_def
        DevAddr_MarshalBinary_def FCtrl_MarshalBinary_def PutUint32_bytes PutUint16_def slice_def)
       (simp add: prop_hdr_def fresh_hdr_def)
qed

lemma prop_decode:
  "FHDR_UnmarshalBinary raw_pkg (fresh_hdr False) [0, 0, 0, 0, 3, 0, 0, 0x80, 1, 2] =
     (Some ErrNotEnoughBytes,
      (fresh_hdr False)
        \<lparr>FCtrl := (FCtrl (fresh_hdr False))\<lparr>fOptsLen := 3\<rparr>,
          FOpts := [\<lparr>muplink = False, mfields = [0x80]\<rparr>, \<lparr>muplink = False, mfields = [1]\<rparr>]\<rparr>)"
proof -
  have ok: "list_all2 (cmd_ok raw_pkg (uplink (fresh_hdr False))) [[0x80], [1]]
      [\<lparr>muplink = False, mfields = [0x80]\<rparr>, \<lparr>muplink = False, mfields = [1]\<rparr>]"
    by (simp add: cmd_ok_def pLen_def fresh_hdr_def)
  have "FHDR_UnmarshalBinary raw_pkg (fresh_hdr False)
          ([0, 0, 0, 0, 3, 0, 0] @ concat [[0x80], [1]] @ 2 # []) =
        (Some ErrNotEnoughBytes,
         (decode_prefix (fresh_hdr False) ([0, 0, 0, 0, 3, 0, 0] @ concat [[0x80], [1]] @ 2 # []))
           \<lparr>FOpts := FOpts (fresh_hdr False) @
              [\<lparr>muplink = False, mfields = [0x80]\<rparr>, \<lparr>muplink = False, mfields = [1]\<rparr>]\<rparr>)"
    by (rule FHDR_UnmarshalBinary_truncated[OF _ ok]) (simp_all add: pLen_def fresh_hdr_def)
  then show ?thesis
    by (simp add: decode_prefix_def fresh_hdr_def slice_def Uint32_bytes
        Uint16_def FCtrl_UnmarshalBinary_def)
qed

section \<open>The claims\<close>

subsection \<open>C1: round trip\<close>

text \<open>
  C1, as stated, fails. Its only condition is that the commands serialize to at most 15
  bytes. The downlink header \<open>prop_hdr\<close> has one command that serializes to the three
  bytes 80 01 02; \<^verbatim>\<open>FHDR.MarshalBinary\<close> succeeds, and \<^verbatim>\<open>FHDR.UnmarshalBinary\<close> of
  its ten bytes into the zero downlink header fails: identifiers 0x80 and 0x01 have no
  case in the \<^verbatim>\<open>switch\<close> and are read as two commands without payload, and
  identifier 0x02 then lacks its two payload bytes.
\<close>

theorem roundtrip_fails_on_proprietary_payload:
  "uplink prop_hdr = uplink (fresh_hdr False) \<and>
   FOpts prop_hdr = [\<lparr>muplink = False, mfields = [0x80, 1, 2]\<rparr>] \<and>
   marshal_FOpts raw_pkg (uplink prop_hdr) (FOpts prop_hdr) [] = ([0x80, 1, 2], None) \<and>
   FHDR_MarshalBinary raw_pkg prop_hdr = ([0, 0, 0, 0, 3, 0, 0, 0x80, 1, 2], None) \<and>
   fst (FHDR_UnmarshalBinary raw_pkg (fresh_hdr False) (fst (FHDR_MarshalBinary raw_pkg prop_hdr))) =
     Some ErrNotEnoughBytes \<and>
   FOpts (snd (FHDR_UnmarshalBinary raw_pkg (fresh_hdr False)
                 (fst (FHDR_MarshalBinary raw_pkg prop_hdr)))) =
     [\<lparr>muplink = False, mfields = [0x80]\<rparr>, \<lparr>muplink = False, mfields = [1]\<rparr>]"
  by (simp add: prop_encode prop_decode) (simp add: prop_hdr_def fresh_hdr_def)

text \<open>
  C1, amended. Let \<open>h\<close> be a header whose commands serialize without error to at most
  15 bytes, where the bytes of each command are its identifier byte followed by exactly
  as many payload bytes as the \<^verbatim>\<open>switch\<close> of \<^verbatim>\<open>FHDR.UnmarshalBinary\<close> resolves for
  that identifier and the header's direction (none for a pair without a case), and
  \<^verbatim>\<open>MACCommand.UnmarshalBinary\<close> reads the command back from them. Then
  \<^verbatim>\<open>FHDR.MarshalBinary\<close> succeeds, and \<^verbatim>\<open>FHDR.UnmarshalBinary\<close> of its bytes into
  a header \<open>h0\<close> with the same direction and no commands succeeds and leaves \<open>h\<close>
  itself, up to the two unexported fields the methods set: \<^verbatim>\<open>fOptsLen\<close> is the
  length of the command bytes and every command's \<^verbatim>\<open>uplink\<close> is the header's. So
  \<^verbatim>\<open>DevAddr\<close>, \<^verbatim>\<open>Fcnt\<close>, the four flags and the sequence of commands (their
  identifiers and payloads) are the ones of \<open>h\<close>.
\<close>

theorem frame_header_roundtrip:
  assumes "list_all (mac_contract P (uplink h)) (FOpts h)"
    and "length (fst (marshal_FOpts P (uplink h) (FOpts h) [])) \<le> 15"
    and "uplink h0 = uplink h" and "FOpts h0 = []"
  shows "snd (FHDR_MarshalBinary P h) = None \<and>
     FHDR_UnmarshalBinary P h0 (fst (FHDR_MarshalBinary P h)) =
       (None,
        h\<lparr>FCtrl := (FCtrl h)\<lparr>fOptsLen :=
               of_nat (length (fst (marshal_FOpts P (uplink h) (FOpts h) [])))\<rparr>,
          FOpts := map (\<lambda>m. m\<lparr>muplink := uplink h\<rparr>) (FOpts h)\<rparr>) \<and>
     map mfields (FOpts (snd (FHDR_UnmarshalBinary P h0 (fst (FHDR_MarshalBinary P h))))) =
       map mfields (FOpts h)"
proof -
  define chunks where
    "chunks = map (\<lambda>m. fst (mac_MarshalBinary P (m\<lparr>muplink := uplink h\<rparr>))) (FOpts h)"
  define mcs where "mcs = map (\<lambda>m. m\<lparr>muplink := uplink h\<rparr>) (FOpts h)"
  define c where "c = (FCtrl h)\<lparr>fOptsLen := of_nat (length (concat chunks))\<rparr>"
  define pre where "pre = PutUint32 (replicate 4 0) (DevAddr h) @
        [flags_byte c, ucast (Fcnt h), ucast (drop_bit 8 (Fcnt h))]"
  have m: "marshal_FOpts P (uplink h) (FOpts h) [] = (concat chunks, None)"
    using marshal_FOpts_concat[OF contract_no_error[OF assms(1)], of "[]"]
    by (simp add: chunks_def)
  with assms(2) have le: "fOptsLen c \<le> 15"
    by (simp add: c_def of_nat_le_15)
  have enc: "FHDR_MarshalBinary P h = (pre @ concat chunks, None)"
    using FHDR_MarshalBinary_body_ok[OF m] le
    by (simp add: FHDR_MarshalBinary_def pre_def c_def)
  have ok: "list_all2 (cmd_ok P (uplink h0)) chunks mcs"
    unfolding chunks_def mcs_def assms(3) by (rule contract_chunks[OF assms(1)])
  have lp: "length pre = 7"
    by (simp add: pre_def PutUint32_bytes)
  have dp: "decode_prefix h0 (pre @ concat chunks) =
      h0\<lparr>DevAddr := DevAddr h, FCtrl := c, Fcnt := Fcnt h\<rparr>"
    using FCtrl_roundtrip[OF le, of "FCtrl h0"]
    by (simp add: decode_prefix_def pre_def slice_def PutUint32_bytes Uint32_bytes le_uint32
        Uint16_bytes)
  have "FHDR_UnmarshalBinary P h0 (pre @ concat chunks) =
      (None, h0\<lparr>DevAddr := DevAddr h, FCtrl := c, Fcnt := Fcnt h, FOpts := mcs\<rparr>)"
    using FHDR_UnmarshalBinary_wellformed[OF lp ok] by (simp add: dp assms(4))
  also have "h0\<lparr>DevAddr := DevAddr h, FCtrl := c, Fcnt := Fcnt h, FOpts := mcs\<rparr> =
      h\<lparr>FCtrl := c, FOpts := mcs\<rparr>"
    using assms(3) by simp
  finally have dec: "FHDR_UnmarshalBinary P h0 (pre @ concat chunks) =
      (None, h\<lparr>FCtrl := c, FOpts := mcs\<rparr>)" .
  have "map mfields mcs = map mfields (FOpts h)"
    by (simp add: mcs_def comp_def)
  with dec enc m show ?thesis
    by (simp add: c_def mcs_def)
qed

text \<open>
  The amended statement at \<open>ex_hdr\<close>, a downlink header with two commands, and at
  \<open>ex_up_hdr\<close>, an uplink header with a command for each uplink case of the
  \<^verbatim>\<open>switch\<close>, each decoded into the zero header of its direction.
\<close>

theorem frame_header_roundtrip_witness:
  "list_all (mac_contract raw_pkg (uplink ex_hdr)) (FOpts ex_hdr) \<and>
   length (fst (marshal_FOpts raw_pkg (uplink ex_hdr) (FOpts ex_hdr) [])) \<le> 15 \<and>
   uplink (fresh_hdr False) = uplink ex_hdr \<and> FOpts (fresh_hdr False) = [] \<and>
   FHDR_MarshalBinary raw_pkg ex_hdr = ([4, 3, 2, 1, 0xA4, 0x34, 0x12, 2, 10, 20, 6], None) \<and>
   FHDR_UnmarshalBinary raw_pkg (fresh_hdr False) [4, 3, 2, 1, 0xA4, 0x34, 0x12, 2, 10, 20, 6] =
     (None,
      ex_hdr\<lparr>FCtrl := (FCtrl ex_hdr)\<lparr>fOptsLen := 4\<rparr>,
        FOpts := [\<lparr>muplink = False, mfields = [2, 10, 20]\<rparr>, \<lparr>muplink = False, mfields = [6]\<rparr>]\<rparr>) \<and>
   list_all (mac_contract raw_pkg (uplink ex_up_hdr)) (FOpts ex_up_hdr) \<and>
   length (fst (marshal_FOpts raw_pkg (uplink ex_up_hdr) (FOpts ex_up_hdr) [])) \<le> 15 \<and>
   uplink (fresh_hdr True) = uplink ex_up_hdr \<and> FOpts (fresh_hdr True) = [] \<and>
   FHDR_MarshalBinary raw_pkg ex_up_hdr =
     ([0xDA, 0x1B, 0x01, 0x26, 0x49, 0xFF, 0xFF, 3, 7, 5, 1, 6, 255, 10, 7, 3], None) \<and>
   FHDR_UnmarshalBinary raw_pkg (fresh_hdr True)
       [0xDA, 0x1B, 0x01, 0x26, 0x49, 0xFF, 0xFF, 3, 7, 5, 1, 6, 255, 10, 7, 3] =
     (None, ex_up_hdr\<lparr>FCtrl := (FCtrl ex_up_hdr)\<lparr>fOptsLen := 9\<rparr>\<rparr>)"
proof -
  have a: "list_all (mac_contract raw_pkg (uplink ex_hdr)) (FOpts ex_hdr)"
    by (simp add: ex_hdr_def mac_contract_def cmd_ok_def pLen_def)
  have m: "marshal_FOpts raw_pkg (uplink ex_hdr) (FOpts ex_hdr) [] = ([2, 10, 20, 6], None)"
    by (simp add: ex_hdr_def)
  have b: "length (fst (marshal_FOpts raw_pkg (uplink ex_hdr) (FOpts ex_hdr) [])) \<le> 15"
    by (simp add: m)
  have c: "uplink (fresh_hdr False) = uplink ex_hdr" "FOpts (fresh_hdr False) = []"
    by (simp_all add: fresh_hdr_def ex_hdr_def)
  have down: "FHDR_UnmarshalBinary raw_pkg (fresh_hdr False)
      [4, 3, 2, 1, 0xA4, 0x34, 0x12, 2, 10, 20, 6] =
     (None,
      ex_hdr\<lparr>FCtrl := (FCtrl ex_hdr)\<lparr>fOptsLen := 4\<rparr>,
        FOpts := [\<lparr>muplink = False, mfields = [2, 10, 20]\<rparr>, \<lparr>muplink = False, mfields = [6]\<rparr>]\<rparr>)"
    using frame_header_roundtrip[OF a b c] by (simp add: ex_encode m) (simp add: ex_hdr_def)
  have a': "list_all (mac_contract raw_pkg (uplink ex_up_hdr)) (FOpts ex_up_hdr)"
    by (simp add: ex_up_hdr_def mac_contract_def cmd_ok_def pLen_def)
  have m': "marshal_FOpts raw_pkg (uplink ex_up_hdr) (FOpts ex_up_hdr) [] =
      ([3, 7, 5, 1, 6, 255, 10, 7, 3], None)"
    by (simp add: ex_up_hdr_def)
  have b': "length (fst (marshal_FOpts raw_pkg (uplink ex_up_hdr) (FOpts ex_up_hdr) [])) \<le> 15"
    by (simp add: m')
  have c': "uplink (fresh_hdr True) = uplink ex_up_hdr" "FOpts (fresh_hdr True) = []"
    by (simp_all add: fresh_hdr_def ex_up_hdr_def)
  have up: "FHDR_UnmarshalBinary raw_pkg (fresh_hdr True)
       [0xDA, 0x1B, 0x01, 0x26, 0x49, 0xFF, 0xFF, 3, 7, 5, 1, 6, 255, 10, 7, 3] =
     (None, ex_up_hdr\<lparr>FCtrl := (FCtrl ex_up_hdr)\<lparr>fOptsLen := 9\<rparr>\<rparr>)"
    using frame_header_roundtrip[OF a' b' c'] by (simp add: ex_up_encode m') (simp add: ex_up_hdr_def)
  show ?thesis
    using a b c a' b' c' down up by (simp add: ex_encode ex_up_encode)
qed

subsection \<open>C2: a failed decode and the header\<close>

text \<open>
  C2, as stated, fails: a decode that fails after the first seven bytes leaves the header
  changed. On \<open>trunc_data\<close> the scan decodes one command and then finds identifier 0x02
  without its payload; the call returns the error, and the zero header it was given now
  has the address, the flags and the counter of the input and one command.
\<close>

theorem failed_decode_changes_header:
  "fst (FHDR_UnmarshalBinary raw_pkg (fresh_hdr False) trunc_data) = Some ErrNotEnoughBytes \<and>
   snd (FHDR_UnmarshalBinary raw_pkg (fresh_hdr False) trunc_data) \<noteq> fresh_hdr False \<and>
   DevAddr (snd (FHDR_UnmarshalBinary raw_pkg (fresh_hdr False) trunc_data)) = 0x01020304 \<and>
   ADR (FCtrl (snd (FHDR_UnmarshalBinary raw_pkg (fresh_hdr False) trunc_data))) \<and>
   Fcnt (snd (FHDR_UnmarshalBinary raw_pkg (fresh_hdr False) trunc_data)) = 5 \<and>
   FOpts (snd (FHDR_UnmarshalBinary raw_pkg (fresh_hdr False) trunc_data)) =
     [\<lparr>muplink = False, mfields = [4, 1]\<rparr>] \<and>
   DevAddr (fresh_hdr False) = 0 \<and> \<not> ADR (FCtrl (fresh_hdr False)) \<and>
   Fcnt (fresh_hdr False) = 0 \<and> FOpts (fresh_hdr False) = []"
  by (simp add: trunc_decode) (simp add: fresh_hdr_def)

text \<open>
  C2, amended. \<^verbatim>\<open>FHDR.UnmarshalBinary\<close> returns the error \<open>e\<close> and leaves the header
  \<open>h'\<close> exactly in two cases. Either the input has fewer than seven bytes, the error is
  "at least 7 bytes are expected" and \<open>h'\<close> is the header as before the call. Or the
  bytes after the first seven are a sequence of well-formed encoded commands followed by
  a rest at whose first byte the scan fails with \<open>e\<close> (too few bytes for the payload,
  or an error of the command decoder); then \<^verbatim>\<open>DevAddr\<close>, \<^verbatim>\<open>FCtrl\<close> and \<^verbatim>\<open>Fcnt\<close>
  of \<open>h'\<close> hold what the first seven bytes encode, \<^verbatim>\<open>uplink\<close> is unchanged, and
  \<^verbatim>\<open>FOpts\<close> is the sequence it was before the call followed by exactly the commands
  decoded from that sequence, in order.
\<close>

theorem failed_decode_state:
  "FHDR_UnmarshalBinary P h data = (Some e, h') \<longleftrightarrow>
     (length data < 7 \<and> e = ErrAtLeast7Bytes \<and> h' = h) \<or>
     (7 \<le> length data \<and>
      (\<exists>chunks mcs rest.
         drop 7 data = concat chunks @ rest \<and>
         list_all2 (cmd_ok P (uplink h)) chunks mcs \<and>
         scan_failure P (uplink h) rest e \<and>
         h' = (decode_prefix h data)\<lparr>FOpts := FOpts h @ mcs\<rparr>))"
proof (cases "length data < 7")
  case True
  then show ?thesis by (auto simp: FHDR_UnmarshalBinary_short)
next
  case False
  then have ge: "7 \<le> length data" by simp
  show ?thesis
  proof
    assume "FHDR_UnmarshalBinary P h data = (Some e, h')"
    from FHDR_UnmarshalBinary_failed[OF this ge] ge show
      "(length data < 7 \<and> e = ErrAtLeast7Bytes \<and> h' = h) \<or>
       (7 \<le> length data \<and>
        (\<exists>chunks mcs rest.
           drop 7 data = concat chunks @ rest \<and>
           list_all2 (cmd_ok P (uplink h)) chunks mcs \<and>
           scan_failure P (uplink h) rest e \<and>
           h' = (decode_prefix h data)\<lparr>FOpts := FOpts h @ mcs\<rparr>))"
      by blast
  next
    assume "(length data < 7 \<and> e = ErrAtLeast7Bytes \<and> h' = h) \<or>
       (7 \<le> length data \<and>
        (\<exists>chunks mcs rest.
           drop 7 data = concat chunks @ rest \<and>
           list_all2 (cmd_ok P (uplink h)) chunks mcs \<and>
           scan_failure P (uplink h) rest e \<and>
           h' = (decode_prefix h data)\<lparr>FOpts := FOpts h @ mcs\<rparr>))"
    with False obtain chunks mcs rest where
      d: "drop 7 data = concat chunks @ rest"
      and ok: "list_all2 (cmd_ok P (uplink h)) chunks mcs"
      and f: "scan_failure P (uplink h) rest e"
      and h': "h' = (decode_prefix h data)\<lparr>FOpts := FOpts h @ mcs\<rparr>"
      by blast
    have data: "data = take 7 data @ concat chunks @ rest"
      using d append_take_drop_id[of 7 data] by simp
    have l7: "length (take 7 data) = 7" using ge by simp
    have "FHDR_UnmarshalBinary P h (take 7 data @ concat chunks @ rest) =
        FOpts_loop P (take 7 data @ concat chunks @ rest) (length (concat chunks))
          ((decode_prefix h (take 7 data @ concat chunks @ rest))\<lparr>FOpts := FOpts h @ mcs\<rparr>)"
      by (rule FHDR_UnmarshalBinary_chunks[OF l7 ok])
    also have "\<dots> = FOpts_loop P ((take 7 data @ concat chunks) @ rest) (length (concat chunks))
          ((decode_prefix h (take 7 data @ concat chunks @ rest))\<lparr>FOpts := FOpts h @ mcs\<rparr>)"
      by simp
    also have "\<dots> = (Some e,
        (decode_prefix h (take 7 data @ concat chunks @ rest))\<lparr>FOpts := FOpts h @ mcs\<rparr>)"
      by (rule FOpts_loop_scan_failure) (use l7 f in simp_all)
    finally show "FHDR_UnmarshalBinary P h data = (Some e, h')"
      unfolding h' using data by simp
  qed
qed

text \<open>
  The amended statement at the truncated input above: one command is decoded and
  kept, and the scan fails at the identifier 0x02 that follows it.
\<close>

theorem failed_decode_state_witness:
  "drop 7 trunc_data = concat [[4, 1]] @ [2] \<and>
   list_all2 (cmd_ok raw_pkg (uplink (fresh_hdr False))) [[4, 1]]
     [\<lparr>muplink = False, mfields = [4, 1]\<rparr>] \<and>
   scan_failure raw_pkg (uplink (fresh_hdr False)) [2] ErrNotEnoughBytes \<and>
   7 \<le> length trunc_data \<and>
   decode_prefix (fresh_hdr False) trunc_data =
     \<lparr>DevAddr = 0x01020304,
      FCtrl = \<lparr>ADR = True, ADRACKReq = False, ACK = False, FPending = False, fOptsLen = 0\<rparr>,
      Fcnt = 5, FOpts = [], uplink = False\<rparr> \<and>
   FHDR_UnmarshalBinary raw_pkg (fresh_hdr False) trunc_data =
     (Some ErrNotEnoughBytes,
      \<lparr>DevAddr = 0x01020304,
       FCtrl = \<lparr>ADR = True, ADRACKReq = False, ACK = False, FPending = False, fOptsLen = 0\<rparr>,
       Fcnt = 5, FOpts = [\<lparr>muplink = False, mfields = [4, 1]\<rparr>], uplink = False\<rparr>)"
proof -
  have d: "drop 7 trunc_data = concat [[4, 1]] @ [2]"
    by (simp add: trunc_data_def)
  have ok: "list_all2 (cmd_ok raw_pkg (uplink (fresh_hdr False))) [[4, 1]]
      [\<lparr>muplink = False, mfields = [4, 1]\<rparr>]"
    by (simp add: cmd_ok_def pLen_def fresh_hdr_def)
  have f: "scan_failure raw_pkg (uplink (fresh_hdr False)) [2] ErrNotEnoughBytes"
    by (simp add: scan_failure_def pLen_def fresh_hdr_def)
  have ge: "7 \<le> length trunc_data"
    by (simp add: trunc_data_def)
  have dp: "decode_prefix (fresh_hdr False) trunc_data =
     \<lparr>DevAddr = 0x01020304,
      FCtrl = \<lparr>ADR = True, ADRACKReq = False, ACK = False, FPending = False, fOptsLen = 0\<rparr>,
      Fcnt = 5, FOpts = [], uplink = False\<rparr>"
    using decode_prefix_ex[of "fresh_hdr False" "[4, 1, 2]"]
    by (simp add: trunc_data_def ex_prefix_def) (simp add: fresh_hdr_def)
  have "FHDR_UnmarshalBinary raw_pkg (fresh_hdr False) trunc_data =
     (Some ErrNotEnoughBytes,
      (decode_prefix (fresh_hdr False) trunc_data)
        \<lparr>FOpts := FOpts (fresh_hdr False) @ [\<lparr>muplink = False, mfields = [4, 1]\<rparr>]\<rparr>)"
    unfolding failed_decode_state using d ok f ge by blast
  then show ?thesis
    using d ok f ge dp by (simp add: fresh_hdr_def)
qed

subsection \<open>C3: a concrete encoding\<close>

text \<open>
  C3. The header with \<^verbatim>\<open>DevAddr\<close> 0x01020304, only the flag \<^verbatim>\<open>ADR\<close> set, counter 5
  and no commands is encoded as the seven bytes 04 03 02 01 80 05 00, whatever its
  direction, its previous \<^verbatim>\<open>fOptsLen\<close> and the \<^verbatim>\<open>MACCommand\<close> methods are.
\<close>

theorem encode_vector:
  "FHDR_MarshalBinary P
     \<lparr>DevAddr = 0x01020304,
      FCtrl = \<lparr>ADR = True, ADRACKReq = False, ACK = False, FPending = False, fOptsLen = n\<rparr>,
      Fcnt = 5, FOpts = [], uplink = up\<rparr> =
   ([0x04, 0x03, 0x02, 0x01, 0x80, 0x05, 0x00], None)"
  by (simp add: FHDR_MarshalBinary_def FHDR_MarshalBinary_body_def Let_def
      DevAddr_MarshalBinary_def FCtrl_MarshalBinary_def PutUint32_bytes PutUint16_def slice_def)

subsection \<open>C4: the size check of the encoder\<close>

text \<open>
  C4 says that 16 or more bytes of commands are refused. The check compares
  \<^verbatim>\<open>uint8(len(opts))\<close> with 15, so a length whose low eight bits are at most 15
  passes: the header \<open>ex256_hdr\<close>, whose 256 commands serialize to 256 bytes, is
  encoded without error, as 263 bytes.
\<close>

theorem encode_accepts_256_bytes:
  "length (fst (marshal_FOpts raw_pkg (uplink ex256_hdr) (FOpts ex256_hdr) [])) = 256 \<and>
   FHDR_MarshalBinary raw_pkg ex256_hdr = ([0, 0, 0, 0, 0, 0, 0] @ replicate 256 2, None)"
  by (simp add: marshal_256 encode_256)

subsection \<open>C5: the options length in the flags byte\<close>

text \<open>
  C5 says that after a successful encoding the low four bits of the byte at offset 4
  are the length of the command bytes. For \<open>ex256_hdr\<close> the encoding succeeds, the
  command bytes are 256 and the four bits are 0: the same truncation to eight bits
  as in C4.
\<close>

theorem options_length_wraps_at_256:
  "snd (FHDR_MarshalBinary raw_pkg ex256_hdr) = None \<and>
   (fst (FHDR_MarshalBinary raw_pkg ex256_hdr) ! 4) AND 15 = 0 \<and>
   length (fst (marshal_FOpts raw_pkg (uplink ex256_hdr) (FOpts ex256_hdr) [])) = 256"
  by (simp add: marshal_256 encode_256)

subsection \<open>C6: no size limit on decode\<close>

text \<open>
  C6. When the bytes after the seven-byte prefix are a sequence of well-formed encoded
  commands for the header's direction, \<^verbatim>\<open>FHDR.UnmarshalBinary\<close> returns no error,
  however long that sequence is, and appends the decoded commands. No hypothesis bounds
  the length of the sequence.
\<close>

theorem decode_has_no_size_limit:
  assumes "length pre = 7" and "list_all2 (cmd_ok P (uplink h)) chunks mcs"
  shows "FHDR_UnmarshalBinary P h (pre @ concat chunks) =
         (None, (decode_prefix h (pre @ concat chunks))\<lparr>FOpts := FOpts h @ mcs\<rparr>)"
proof -
  let ?data = "pre @ concat chunks @ []"
  have "FHDR_UnmarshalBinary P h ?data =
        FOpts_loop P ?data (length (concat chunks))
          ((decode_prefix h ?data)\<lparr>FOpts := FOpts h @ mcs\<rparr>)"
    by (rule FHDR_UnmarshalBinary_chunks[OF assms])
  also have "\<dots> = (None, (decode_prefix h ?data)\<lparr>FOpts := FOpts h @ mcs\<rparr>)"
    by (rule FOpts_loop_end) (simp add: assms(1))
  finally show ?thesis by simp
qed

text \<open>
  The theorem at a downlink input with 22 bytes of commands.
\<close>

theorem decode_has_no_size_limit_witness:
  "length ex_prefix = 7 \<and>
   list_all2 (cmd_ok raw_pkg (uplink (fresh_hdr False))) long_chunks
     (map (\<lambda>c. \<lparr>muplink = False, mfields = c\<rparr>) long_chunks) \<and>
   length (concat long_chunks) = 22 \<and>
   FHDR_UnmarshalBinary raw_pkg (fresh_hdr False) (ex_prefix @ concat long_chunks) =
     (None,
      \<lparr>DevAddr = 0x01020304,
       FCtrl = \<lparr>ADR = True, ADRACKReq = False, ACK = False, FPending = False, fOptsLen = 0\<rparr>,
       Fcnt = 5,
       FOpts = map (\<lambda>c. \<lparr>muplink = False, mfields = c\<rparr>) long_chunks,
       uplink = False\<rparr>)"
proof -
  have l: "length ex_prefix = 7" by (simp add: ex_prefix_def)
  have ok: "list_all2 (cmd_ok raw_pkg (uplink (fresh_hdr False))) long_chunks
     (map (\<lambda>c. \<lparr>muplink = False, mfields = c\<rparr>) long_chunks)"
    by (simp add: long_chunks_def cmd_ok_def pLen_def fresh_hdr_def)
  have n: "length (concat long_chunks) = 22" by (simp add: long_chunks_def)
  from decode_has_no_size_limit[OF l ok] l ok n show ?thesis
    by (simp add: decode_prefix_ex) (simp add: fresh_hdr_def)
qed

subsection \<open>C7: truncation\<close>

text \<open>
  C7. When the scan, after any number of well-formed commands, stands at an identifier
  \<open>c\<close> followed by fewer bytes than the payload length resolved for \<open>c\<close>, the decode
  fails with the error "not enough remaining bytes".
\<close>

theorem decode_detects_truncation:
  assumes "length pre = 7" and "list_all2 (cmd_ok P (uplink h)) chunks mcs"
    and "length rest < pLen P (uplink h) c"
  shows "fst (FHDR_UnmarshalBinary P h (pre @ concat chunks @ c # rest)) = Some ErrNotEnoughBytes"
proof -
  let ?data = "pre @ concat chunks @ c # rest"
  let ?h = "(decode_prefix h ?data)\<lparr>FOpts := FOpts h @ mcs\<rparr>"
  have "FHDR_UnmarshalBinary P h ?data = FOpts_loop P ?data (length (concat chunks)) ?h"
    by (rule FHDR_UnmarshalBinary_chunks[OF assms(1,2)])
  also have "\<dots> = FOpts_loop P ((pre @ concat chunks) @ c # rest) (length (concat chunks)) ?h"
    by simp
  also have "\<dots> = (Some ErrNotEnoughBytes, ?h)"
    by (rule FOpts_loop_truncated) (use assms in simp_all)
  finally show ?thesis by simp
qed

text \<open>
  The theorem at a downlink input whose last identifier, 0x02, needs two payload
  bytes and has one.
\<close>

theorem decode_detects_truncation_witness:
  "length ex_prefix = 7 \<and>
   list_all2 (cmd_ok raw_pkg (uplink (fresh_hdr False))) [[4, 1]] [\<lparr>muplink = False, mfields = [4, 1]\<rparr>] \<and>
   length [9 :: byte] < pLen raw_pkg (uplink (fresh_hdr False)) 2 \<and>
   fst (FHDR_UnmarshalBinary raw_pkg (fresh_hdr False) (ex_prefix @ [4, 1, 2, 9])) =
     Some ErrNotEnoughBytes"
proof -
  have l: "length ex_prefix = 7" by (simp add: ex_prefix_def)
  have ok: "list_all2 (cmd_ok raw_pkg (uplink (fresh_hdr False))) [[4, 1]]
      [\<lparr>muplink = False, mfields = [4, 1]\<rparr>]"
    by (simp add: cmd_ok_def pLen_def fresh_hdr_def)
  have t: "length [9 :: byte] < pLen raw_pkg (uplink (fresh_hdr False)) 2"
    by (simp add: pLen_def fresh_hdr_def)
  from decode_detects_truncation[OF l ok t] l ok t show ?thesis by simp
qed

subsection \<open>C8: the payload length depends on the direction\<close>



subsection \<open>C9: encoding leaves the caller's header as it was\<close>

text \<open>
  C9. After a call of \<^verbatim>\<open>MarshalBinary\<close> on a header, with whatever result, the
  caller's header is the one before the call: the assignment to \<^verbatim>\<open>fOptsLen\<close> is made
  on the method's copy, and the loop writes to no element of \<^verbatim>\<open>FOpts\<close>.
\<close>

theorem encode_leaves_caller_header:
  "snd (call_FHDR_MarshalBinary P x) = x \<and>
   fst (call_FHDR_MarshalBinary P x) = FHDR_MarshalBinary P x"
proof (cases "FHDR_MarshalBinary_body P x")
  case (Pair res h)
  with FHDR_MarshalBinary_body_FOpts[of P x] have "FOpts h = FOpts x" by simp
  with Pair show ?thesis
    by (simp add: call_FHDR_MarshalBinary_def FHDR_MarshalBinary_def)
qed

subsection \<open>C10: decode appends to the commands already there\<close>

text \<open>
  C10. When \<^verbatim>\<open>FHDR.UnmarshalBinary\<close> succeeds on a header \<open>h\<close>, its \<^verbatim>\<open>FOpts\<close>
  afterwards is the sequence \<open>h\<close> had, followed by the newly decoded commands: those
  the same input gives (also without error) on \<open>h\<close> with its commands cleared.
\<close>

theorem decode_appends:
  assumes "FHDR_UnmarshalBinary P h data = (None, h')"
  shows "fst (FHDR_UnmarshalBinary P (h\<lparr>FOpts := []\<rparr>) data) = None \<and>
         FOpts h' = FOpts h @ FOpts (snd (FHDR_UnmarshalBinary P (h\<lparr>FOpts := []\<rparr>) data))"
proof -
  obtain e h0 where d: "FHDR_UnmarshalBinary P (h\<lparr>FOpts := []\<rparr>) data = (e, h0)"
    by (cases "FHDR_UnmarshalBinary P (h\<lparr>FOpts := []\<rparr>) data")
  from decode_into_reused[OF d] assms d show ?thesis by auto
qed

text \<open>
  The theorem at \<open>ex_hdr\<close>, which holds two commands, and an input with one.
\<close>

theorem decode_appends_witness:
  "FHDR_UnmarshalBinary raw_pkg ex_hdr reuse_data =
     (None,
      \<lparr>DevAddr = 0x01020304,
       FCtrl = \<lparr>ADR = True, ADRACKReq = False, ACK = False, FPending = False, fOptsLen = 0\<rparr>,
       Fcnt = 5,
       FOpts = [\<lparr>muplink = False, mfields = [2, 10, 20]\<rparr>, \<lparr>muplink = True, mfields = [6]\<rparr>,
                \<lparr>muplink = False, mfields = [4, 1]\<rparr>],
       uplink = False\<rparr>) \<and>
   FOpts ex_hdr = [\<lparr>muplink = False, mfields = [2, 10, 20]\<rparr>, \<lparr>muplink = True, mfields = [6]\<rparr>] \<and>
   fst (FHDR_UnmarshalBinary raw_pkg (ex_hdr\<lparr>FOpts := []\<rparr>) reuse_data) = None \<and>
   FOpts (snd (FHDR_UnmarshalBinary raw_pkg (ex_hdr\<lparr>FOpts := []\<rparr>) reuse_data)) =
     [\<lparr>muplink = False, mfields = [4, 1]\<rparr>]"
  using decode_appends[OF reuse_decode] reuse_decode
  by (simp add: ex_hdr_def)

section \<open>Further properties of the encoder\<close>

text \<open>
  What the size check does, for every header whose commands serialize without error:
  the encoding succeeds exactly when the low eight bits of the length of the command
  bytes are at most 15. In particular it succeeds at 15 bytes and fails with "max number
  of FOpts bytes is 15" from 16 to 255 bytes.
\<close>

theorem encode_size_check:
  assumes "marshal_FOpts P (uplink h) (FOpts h) [] = (opts, None)"
  shows "FHDR_MarshalBinary P h =
     (if length opts mod 256 \<le> 15
      then (PutUint32 (replicate 4 0) (DevAddr h) @
             [flags_byte ((FCtrl h)\<lparr>fOptsLen := of_nat (length opts)\<rparr>),
              ucast (Fcnt h), ucast (drop_bit 8 (Fcnt h))] @ opts, None)
      else ([], Some ErrMaxFOptsBytes))"
proof (cases "length opts mod 256 \<le> 15")
  case True
  then have "(of_nat (length opts) :: byte) \<le> 15" by (simp add: of_nat_byte_le_15_iff)
  from FHDR_MarshalBinary_body_ok[OF assms this] True show ?thesis
    by (simp add: FHDR_MarshalBinary_def)
next
  case False
  then have "\<not> (of_nat (length opts) :: byte) \<le> 15" by (simp add: of_nat_byte_le_15_iff)
  then have "(of_nat (length opts) :: byte) > 15" by (simp only: not_le)
  from FHDR_MarshalBinary_body_range[OF assms this] False show ?thesis
    by (simp add: FHDR_MarshalBinary_def)
qed

theorem encode_size_check_witness:
  "marshal_FOpts raw_pkg (uplink ex_hdr) (FOpts ex_hdr) [] = ([2, 10, 20, 6], None) \<and>
   FHDR_MarshalBinary raw_pkg ex_hdr = ([4, 3, 2, 1, 0xA4, 0x34, 0x12, 2, 10, 20, 6], None)"
proof -
  have m: "marshal_FOpts raw_pkg (uplink ex_hdr) (FOpts ex_hdr) [] = ([2, 10, 20, 6], None)"
    by (simp add: ex_hdr_def)
  from encode_size_check[OF m] m show ?thesis
    by (simp add: PutUint32_bytes flags_byte_def FCtrl_MarshalBinary_def) (simp add: ex_hdr_def)
qed

text \<open>
  When the command bytes are fewer than 256 and the encoding succeeds, the low four
  bits of the byte at offset 4 are their length, which is at most 15, and the output
  has seven bytes more than the commands.
\<close>

theorem options_length_below_256:
  assumes "marshal_FOpts P (uplink h) (FOpts h) [] = (opts, None)"
    and "FHDR_MarshalBinary P h = (out, None)" and "length opts < 256"
  shows "unat ((out ! 4) AND 15) = length opts \<and> length opts \<le> 15 \<and> length out = 7 + length opts"
proof -
  from assms have le: "length opts \<le> 15"
    by (simp add: encode_size_check[OF assms(1)] split: if_splits)
  then have w: "(of_nat (length opts) :: byte) \<le> 15" by (rule of_nat_le_15)
  have out: "out = PutUint32 (replicate 4 0) (DevAddr h) @
             [flags_byte ((FCtrl h)\<lparr>fOptsLen := of_nat (length opts)\<rparr>),
              ucast (Fcnt h), ucast (drop_bit 8 (Fcnt h))] @ opts"
    using assms le by (simp add: encode_size_check[OF assms(1)])
  have "(out ! 4) AND 15 = of_nat (length opts)"
    using flags_byte_bits(1)[of "(FCtrl h)\<lparr>fOptsLen := of_nat (length opts)\<rparr>"] w
    by (simp add: out PutUint32_bytes)
  with le show ?thesis
    by (simp add: out PutUint32_bytes unat_of_nat take_bit_nat_eq_self)
qed

theorem options_length_below_256_witness:
  "marshal_FOpts raw_pkg (uplink ex_hdr) (FOpts ex_hdr) [] = ([2, 10, 20, 6], None) \<and>
   FHDR_MarshalBinary raw_pkg ex_hdr = ([4, 3, 2, 1, 0xA4, 0x34, 0x12, 2, 10, 20, 6], None) \<and>
   length [2, 10, 20, 6 :: byte] < 256 \<and>
   unat (([4, 3, 2, 1, 0xA4, 0x34, 0x12, 2, 10, 20, 6] ! 4) AND (15 :: byte)) = 4"
proof -
  have m: "marshal_FOpts raw_pkg (uplink ex_hdr) (FOpts ex_hdr) [] = ([2, 10, 20, 6], None)"
    by (simp add: ex_hdr_def)
  have e: "FHDR_MarshalBinary raw_pkg ex_hdr = ([4, 3, 2, 1, 0xA4, 0x34, 0x12, 2, 10, 20, 6], None)"
    by (simp add: FHDR_MarshalBinary_def FHDR_MarshalBinary_body_def m Let_def
        DevAddr_MarshalBinary_def FCtrl_MarshalBinary_def PutUint32_bytes PutUint16_def slice_def)
       (simp add: ex_hdr_def)
  have l: "length [2, 10, 20, 6 :: byte] < 256" by simp
  from options_length_below_256[OF m e l] m e show ?thesis by simp
qed

end
